theory Spec2Isabelle
  imports Complex_Main "HOL-Library.Multiset" "HOL-Library.List_Lexorder"
    "HOL-Library.Char_ord" "HOL-Library.Product_Lexorder"
begin

section \<open>Columns and tables\<close>

text \<open>
  A pandas float column is a list of \<open>real option\<close>: \<open>None\<close> is the null / NaN cell.
  Arithmetic is exact (the rounding of float32 / float64 is not part of the model), and a
  NaN operand makes the result NaN, as in numpy.  The tables written by the successive
  stages (\<open>veh_minute.parquet\<close>, \<open>veh_minute_w.parquet\<close>, \<open>veh_minute_w_vanished.parquet\<close>,
  \<open>norms/veh_minute_d\<close>, \<open>_ds\<close>, \<open>_dsw\<close>, \<open>_scored\<close>) are lists of records, each record
  type extending the previous one by the columns the stage adds.  Identifiers, the
  direction and the timestamp are taken as present in every row; speed, delay,
  coordinates and the weather readings may be null.
\<close>

type_synonym cell = "real option"

definition fillna :: "real \<Rightarrow> cell \<Rightarrow> real" where
  "fillna v x = (case x of None \<Rightarrow> v | Some y \<Rightarrow> y)"

definition clip :: "real \<Rightarrow> real \<Rightarrow> real \<Rightarrow> real" where
  "clip lo hi x = min (max x lo) hi"

definition nan_map :: "(real \<Rightarrow> real) \<Rightarrow> cell \<Rightarrow> cell" where
  "nan_map f x = (case x of None \<Rightarrow> None | Some y \<Rightarrow> Some (f y))"

definition nan_add :: "cell \<Rightarrow> cell \<Rightarrow> cell" where
  "nan_add x y = (case x of None \<Rightarrow> None
                  | Some a \<Rightarrow> (case y of None \<Rightarrow> None | Some b \<Rightarrow> Some (a + b)))"

definition nan_ge :: "cell \<Rightarrow> real \<Rightarrow> bool" where
  "nan_ge x c = (case x of None \<Rightarrow> False | Some a \<Rightarrow> a \<ge> c)"

definition nan_le :: "cell \<Rightarrow> real \<Rightarrow> bool" where
  "nan_le x c = (case x of None \<Rightarrow> False | Some a \<Rightarrow> a \<le> c)"

datatype zone = north | centre | south

record veh_minute =
  vehicle_id :: string
  trip_id :: string
  route_id :: string
  direction_id :: nat
  timestamp :: int
  lat :: cell
  lon :: cell
  speed_kph :: cell
  delay_sec :: cell

record veh_minute_w = veh_minute +
  zone :: zone
  rain_mm :: cell
  temp_c :: cell

record veh_minute_w_vanished = veh_minute_w +
  vanish_anchor :: bool

record veh_minute_d = veh_minute_w_vanished +
  delay_norm :: real

record veh_minute_ds = veh_minute_d +
  free_kph :: cell
  speed_norm :: cell

record veh_minute_dsw = veh_minute_ds +
  rain_norm :: real
  heat_norm :: real
  cold_norm :: real

record veh_minute_scored = veh_minute_dsw +
  row_stress :: cell

section \<open>Normalisation stages\<close>

subsection \<open>add\_delay\_norm.py\<close>

text \<open>
  \<open>delay_norm_vec\<close> works on a whole Series through three boolean masks, and in float32:
  the delay column is cast with \<open>astype("float32")\<close>, and the division by 60 and the three
  bucket formulas are float32 operations.  \<open>delay_norm1\<close> is the curve of the three formulas
  in exact arithmetic, the figure the rows of the stage tables carry below;
  \<open>delay_norm_f32\<close> is what \<open>delay_norm_vec\<close> computes in one cell, every rounding included,
  and \<open>delay_norm_vec\<close> the Series.
\<close>

definition delay_norm1 :: "cell \<Rightarrow> real" where
  "delay_norm1 delay_sec_cell =
     (let d = fillna 0 delay_sec_cell / 60;
          out = (if d \<le> 5 then 0.30 * (d / 5)
                 else if d > 5 \<and> d \<le> 15 then 0.30 + 0.40 * ((d - 5) / 10)
                 else if d > 15 then 0.70 + 0.30 * (min (d - 15) 45 / 45)
                 else 0)
      in clip 0 1 out)"

subsubsection \<open>Float32 arithmetic\<close>

text \<open>
  A finite float32 is a real \<open>m * 2 ^ (e - 23)\<close> with an integer \<open>m\<close>, \<open>\<bar>m\<bar> < 2 ^ 24\<close>, and
  \<open>- 126 \<le> e \<le> 127\<close>.  \<open>round32\<close> rounds a real to the nearest number of that form, the
  exponent left unbounded above: the spacing at \<open>x\<close> is \<open>quantum x\<close>, which below
  \<open>2 ^ (- 126)\<close> stays at \<open>2 ^ (- 149)\<close> (the subnormal numbers), and a tie goes to the even
  significand.  \<open>to_f32\<close> adds the overflow: a result of magnitude \<open>2 ^ 128\<close> or more is an
  infinity.  A NaN cannot arise in \<open>delay_norm_vec\<close>: \<open>fillna(0)\<close> removes the nulls, and no
  operation of the three formulas makes one from numbers or infinities.
\<close>

definition pow2 :: "int \<Rightarrow> real" where
  "pow2 k = (if 0 \<le> k then 2 ^ nat k else 1 / 2 ^ nat (- k))"

definition binade :: "real \<Rightarrow> int" where
  "binade x = \<lfloor>log 2 \<bar>x\<bar>\<rfloor>"

definition round_even :: "real \<Rightarrow> int" where
  "round_even y =
     (let f = \<lfloor>y\<rfloor>; r = y - of_int f
      in if r < 1 / 2 then f
         else if r > 1 / 2 then f + 1
         else if even f then f else f + 1)"

definition quantum :: "real \<Rightarrow> real" where
  "quantum x = pow2 (max (binade x) (- 126) - 23)"

definition round32 :: "real \<Rightarrow> real" where
  "round32 x =
     (if x = 0 then 0
      else sgn x * (of_int (round_even (\<bar>x\<bar> / quantum x)) * quantum x))"

datatype f32 = NInf | Fin real | PInf

definition to_f32 :: "real \<Rightarrow> f32" where
  "to_f32 x =
     (let y = round32 x
      in if pow2 128 \<le> y then PInf else if y \<le> - pow2 128 then NInf else Fin y)"

fun f32_le :: "f32 \<Rightarrow> f32 \<Rightarrow> bool" where
  "f32_le NInf v = True"
| "f32_le v PInf = True"
| "f32_le (Fin x) (Fin y) = (x \<le> y)"
| "f32_le v w = False"

text \<open>
  The operations of the three formulas.  One operand is always a float32 Series cell and
  the other a Python scalar, which numpy takes at the dtype of the Series: the integers
  60, 5, 10, 15 and 45 are float32 numbers as they stand, the constants 0.30, 0.40 and
  0.70 are rounded to float32 first (\<open>round32 c\<close>).  The result is the exact result
  rounded.  \<open>np.minimum\<close> and \<open>clip\<close> select and do not round.
\<close>

definition f32_div :: "f32 \<Rightarrow> real \<Rightarrow> f32" where
  "f32_div v c = (case v of Fin x \<Rightarrow> to_f32 (x / c) | NInf \<Rightarrow> NInf | PInf \<Rightarrow> PInf)"

definition f32_sub :: "f32 \<Rightarrow> real \<Rightarrow> f32" where
  "f32_sub v c = (case v of Fin x \<Rightarrow> to_f32 (x - c) | NInf \<Rightarrow> NInf | PInf \<Rightarrow> PInf)"

definition f32_mul :: "real \<Rightarrow> f32 \<Rightarrow> f32" where
  "f32_mul c v = (case v of Fin x \<Rightarrow> to_f32 (round32 c * x) | NInf \<Rightarrow> NInf | PInf \<Rightarrow> PInf)"

definition f32_add :: "real \<Rightarrow> f32 \<Rightarrow> f32" where
  "f32_add c v = (case v of Fin x \<Rightarrow> to_f32 (round32 c + x) | NInf \<Rightarrow> NInf | PInf \<Rightarrow> PInf)"

definition f32_minimum :: "f32 \<Rightarrow> real \<Rightarrow> f32" where
  "f32_minimum v c = (case v of Fin x \<Rightarrow> Fin (min x c) | NInf \<Rightarrow> NInf | PInf \<Rightarrow> Fin c)"

definition f32_clip :: "real \<Rightarrow> real \<Rightarrow> f32 \<Rightarrow> real" where
  "f32_clip lo hi v = (case v of Fin x \<Rightarrow> min (max x lo) hi | NInf \<Rightarrow> lo | PInf \<Rightarrow> hi)"

subsubsection \<open>The curve in float32\<close>

text \<open>
  \<open>minutes_f32\<close> is the line \<open>d = delay_sec.fillna(0).astype("float32") / 60.0\<close>;
  \<open>bucket1\<close>, \<open>bucket2\<close> and \<open>bucket3\<close> are the right-hand sides of the three masked
  assignments, \<open>delay_out\<close> the array \<open>out\<close> after them (it starts at zero, and the masks
  \<open>m1 = d <= 5\<close>, \<open>m2 = (d > 5) & (d <= 15)\<close>, \<open>m3 = d > 15\<close> are comparisons of float32
  numbers), and \<open>delay_norm_f32\<close> the returned \<open>out.clip(0, 1)\<close>.
\<close>

definition minutes_f32 :: "cell \<Rightarrow> f32" where
  "minutes_f32 delay_sec_cell = f32_div (to_f32 (fillna 0 delay_sec_cell)) 60"

definition bucket1 :: "f32 \<Rightarrow> f32" where
  "bucket1 d = f32_mul 0.30 (f32_div d 5)"

definition bucket2 :: "f32 \<Rightarrow> f32" where
  "bucket2 d = f32_add 0.30 (f32_mul 0.40 (f32_div (f32_sub d 5) 10))"

definition bucket3 :: "f32 \<Rightarrow> f32" where
  "bucket3 d = f32_add 0.70 (f32_mul 0.30 (f32_div (f32_minimum (f32_sub d 15) 45) 45))"

definition delay_out :: "f32 \<Rightarrow> f32" where
  "delay_out d =
     (if f32_le d (Fin 5) then bucket1 d
      else if \<not> f32_le d (Fin 5) \<and> f32_le d (Fin 15) then bucket2 d
      else if \<not> f32_le d (Fin 15) then bucket3 d
      else Fin 0)"

definition delay_norm_f32 :: "cell \<Rightarrow> real" where
  "delay_norm_f32 delay_sec_cell =
     (let d = minutes_f32 delay_sec_cell;
          out = delay_out d
      in f32_clip 0 1 out)"

definition delay_norm_vec :: "cell list \<Rightarrow> real list" where
  "delay_norm_vec ds = map delay_norm_f32 ds"

text \<open>
  The stage itself, \<open>main\<close> of the script: the input table with the column \<open>delay_norm\<close>
  added.  The column is carried at the value of the exact curve, from which the float32
  figure differs by at most \<open>10 ^ (- 6)\<close> whatever the delay.
\<close>

definition add_delay_norm :: "veh_minute_w_vanished list \<Rightarrow> veh_minute_d list" where
  "add_delay_norm df =
     map (\<lambda>r. veh_minute_w_vanished.extend r
                 (veh_minute_d.fields (delay_norm1 (delay_sec r)))) df"

subsection \<open>add\_speed\_norm.py\<close>

text \<open>
  The free-flow lookup is the table written by \<open>build_freeflow.py\<close>, a list of
  ((route, direction), free\_kph) rows with one row per key (it is the result of a
  groupby), so the left merge neither duplicates nor drops a row: it attaches the entry
  of the row's key, or null when the table has none.
\<close>

type_synonym freeflow_table = "((string \<times> nat) \<times> real) list"

definition merge_free :: "freeflow_table \<Rightarrow> string \<Rightarrow> nat \<Rightarrow> cell" where
  "merge_free free r d = map_of free (r, d)"

definition speed_norm1 :: "cell \<Rightarrow> cell \<Rightarrow> cell" where
  "speed_norm1 speed free =
     (let moving = nan_ge speed 5
      in if moving
         then (case speed of None \<Rightarrow> None
               | Some s \<Rightarrow> nan_map (\<lambda>f. clip 0 1 (1 - s / max f (1 / 1000))) free)
         else Some 0)"

definition add_speed_norm :: "freeflow_table \<Rightarrow> veh_minute_d list \<Rightarrow> veh_minute_ds list" where
  "add_speed_norm free df =
     map (\<lambda>r. let f = merge_free free (route_id r) (direction_id r)
               in veh_minute_d.extend r
                    (veh_minute_ds.fields f (speed_norm1 (speed_kph r) f))) df"

subsection \<open>add\_weather\_norm.py\<close>

definition rain_norm1 :: "cell \<Rightarrow> real" where
  "rain_norm1 r_mm = clip 0 1 (fillna 0 r_mm / 3)"

definition heat_norm1 :: "cell \<Rightarrow> real" where
  "heat_norm1 temp =
     (let t = fillna 18 temp
      in if t > 18 \<and> t \<le> 21 then 0.30 * (t - 18) / 3
         else if t > 21 \<and> t \<le> 24 then 0.30 + 0.40 * (t - 21) / 3
         else if t > 24 \<and> t \<le> 27 then 0.70 + 0.30 * (t - 24) / 3
         else if t > 27 then 1
         else 0)"

definition cold_norm1 :: "cell \<Rightarrow> real" where
  "cold_norm1 temp =
     (let t = fillna 15 temp
      in if t < 10 \<and> t \<ge> 5 then 0.30 * (10 - t) / 5
         else if t < 5 \<and> t \<ge> 0 then 0.30 + 0.40 * (5 - t) / 5
         else if t < 0 then 0.70 + 0.30 * min (- t) 5 / 5
         else 0)"

definition add_weather_norm :: "veh_minute_ds list \<Rightarrow> veh_minute_dsw list" where
  "add_weather_norm df =
     map (\<lambda>r. veh_minute_ds.extend r
                 (veh_minute_dsw.fields (rain_norm1 (rain_mm r)) (heat_norm1 (temp_c r))
                    (cold_norm1 (temp_c r)))) df"

section \<open>Composite scorer (add\_stress\_score.py)\<close>

record weights =
  w_delay :: real
  w_speed :: real
  w_rain :: real
  w_heat :: real
  w_cold :: real
  w_vanish :: real

definition W :: weights where
  "W = \<lparr>w_delay = 0.30, w_speed = 0.30, w_rain = 0.00, w_heat = 0.15, w_cold = 0.00,
        w_vanish = 0.25\<rparr>"

definition weight_sum :: "weights \<Rightarrow> real" where
  "weight_sum w = w_delay w + w_speed w + w_rain w + w_heat w + w_cold w + w_vanish w"

definition astype_float :: "bool \<Rightarrow> real" where
  "astype_float b = (if b then 1 else 0)"

definition row_stress1 :: "weights \<Rightarrow> veh_minute_dsw \<Rightarrow> cell" where
  "row_stress1 w r =
     nan_add (nan_add (nan_add (nan_add (nan_add
       (Some (w_delay w * delay_norm r))
       (nan_map (\<lambda>x. w_speed w * x) (speed_norm r)))
       (Some (w_rain w * rain_norm r)))
       (Some (w_heat w * heat_norm r)))
       (Some (w_cold w * cold_norm r)))
       (Some (w_vanish w * astype_float (vanish_anchor r)))"

definition score_table :: "weights \<Rightarrow> veh_minute_dsw list \<Rightarrow> veh_minute_scored list" where
  "score_table w df =
     map (\<lambda>r. veh_minute_dsw.extend r (veh_minute_scored.fields (row_stress1 w r))) df"

text \<open>
  \<open>main\<close> of the scorer: the output file already there and no \<open>--overwrite\<close> is a
  no-op, a missing input is \<open>sys.exit\<close>, otherwise the scored table is written.  The module
  constant \<open>W\<close> is a parameter here, so that a reconfigured module can be run.
\<close>

datatype 'a outcome = Skipped | Missing_input | Wrote 'a

definition stress_main ::
  "weights \<Rightarrow> bool \<Rightarrow> bool \<Rightarrow> veh_minute_dsw list option \<Rightarrow> veh_minute_scored list outcome" where
  "stress_main w out_exists overwrite in_file =
     (if out_exists \<and> \<not> overwrite then Skipped
      else case in_file of None \<Rightarrow> Missing_input
           | Some df \<Rightarrow> Wrote (score_table w df))"

text \<open>The normalisation chain from \<open>veh_minute_w_vanished\<close> to the scored table.\<close>

definition pipeline :: "freeflow_table \<Rightarrow> veh_minute_w_vanished list \<Rightarrow> veh_minute_scored list" where
  "pipeline free df = score_table W (add_weather_norm (add_speed_norm free (add_delay_norm df)))"

section \<open>Free-flow speed table (build\_freeflow.py)\<close>

text \<open>
  \<open>quantile\<close> is pandas' group quantile with its default linear interpolation: the
  values are sorted, the position is \<open>q (n - 1)\<close>, and the result interpolates between the
  value at the floor of the position and the next one.  An empty group has no quantile;
  \<open>q\<close> outside [0, 1] is rejected by pandas (the builder only asks for 0.95).
\<close>

definition quantile :: "real \<Rightarrow> real list \<Rightarrow> cell" where
  "quantile q vals =
     (let xs = sort vals; n = length xs
      in if n = 0 \<or> q < 0 \<or> q > 1 then None
         else let h = q * real (n - 1); idx = nat \<lfloor>h\<rfloor>; frac = h - real idx
              in if frac = 0 then Some (xs ! idx)
                 else Some (xs ! idx + (xs ! (idx + 1) - xs ! idx) * frac))"

text \<open>
  The builder concatenates the \<open>veh_minute_d\<close> tables of the reference month, keeps the
  rows with \<open>speed_kph \<ge> 10\<close> (a null speed fails the comparison), groups them by
  (route, direction) with the keys sorted, and takes the 0.95 quantile of each group.
\<close>

definition group_key :: "veh_minute_d \<Rightarrow> string \<times> nat" where
  "group_key r = (route_id r, direction_id r)"

definition freeflow :: "veh_minute_d list \<Rightarrow> freeflow_table" where
  "freeflow df =
     (let mv = filter (\<lambda>r. nan_ge (speed_kph r) 10) df;
          keys = sort (remdups (map group_key mv))
      in List.map_filter
           (\<lambda>k. map_option (Pair k)
                  (quantile 0.95 (List.map_filter speed_kph (filter (\<lambda>r. group_key r = k) mv))))
           keys)"

text \<open>
  The 95th percentile as the specification names it, written independently of the code:
  linear interpolation between the two closest ranks of the sorted sample.
\<close>

definition percentile_spec :: "real \<Rightarrow> real list \<Rightarrow> real" where
  "percentile_spec q vals =
     (let xs = sort vals; h = q * real (length xs - 1); lo = nat \<lfloor>h\<rfloor>; hi = nat \<lceil>h\<rceil>
      in xs ! lo + (h - real lo) * (xs ! hi - xs ! lo))"

section \<open>Temporal join (join\_minute\_with\_weather.py)\<close>

text \<open>
  A weather reading: zone, epoch second, rain rate and temperature.  Timestamps are
  integers (epoch seconds), and \<open>minute_of\<close> is \<open>dt.floor("min")\<close>.
\<close>

record weather_obs =
  w_zone :: zone
  w_timestamp :: int
  w_rain_mm :: cell
  w_temp_c :: cell

definition minute_of :: "int \<Rightarrow> int" where
  "minute_of ts = (ts div 60) * 60"

text \<open>
  \<open>pd.merge_asof(left, right, on="minute", direction="nearest", tolerance=...)\<close> on a
  right table sorted by its key.  The backward search takes the last right row whose key
  is at most the left key, the forward search the first one whose key is at least the
  left key; each is dropped when farther than the tolerance; of two remaining candidates
  the nearer wins, the backward one on a tie.
\<close>

definition tolerance :: int where
  "tolerance = 7 * 60 + 30"

definition asof_backward :: "int \<Rightarrow> ('w \<Rightarrow> int) \<Rightarrow> int \<Rightarrow> 'w list \<Rightarrow> 'w option" where
  "asof_backward tol key t right =
     (let cands = filter (\<lambda>w. key w \<le> t) right
      in if cands = [] then None
         else if t - key (last cands) > tol then None
         else Some (last cands))"

definition asof_forward :: "int \<Rightarrow> ('w \<Rightarrow> int) \<Rightarrow> int \<Rightarrow> 'w list \<Rightarrow> 'w option" where
  "asof_forward tol key t right =
     (let cands = filter (\<lambda>w. key w \<ge> t) right
      in if cands = [] then None
         else if key (hd cands) - t > tol then None
         else Some (hd cands))"

definition asof_nearest :: "int \<Rightarrow> ('w \<Rightarrow> int) \<Rightarrow> int \<Rightarrow> 'w list \<Rightarrow> 'w option" where
  "asof_nearest tol key t right =
     (case asof_backward tol key t right of
        None \<Rightarrow> asof_forward tol key t right
      | Some b \<Rightarrow>
          (case asof_forward tol key t right of
             None \<Rightarrow> Some b
           | Some f \<Rightarrow> if t - key b \<le> key f - t then Some b else Some f))"

text \<open>
  The zone column is the nearest of the three anchors by haversine distance
  (\<open>argmin\<close> over \<open>hav_km\<close>); the join only reads the column, so the classifier is the
  parameter \<open>zone_of\<close>.  For each zone observed in the vehicle table, the rows of that
  zone, sorted by minute, are merged with the readings of the same zone, sorted by
  minute; the parts are concatenated.  (The \<open>minute\<close> and \<open>datetime_ie\<close> columns the
  script also writes are not modelled.)
\<close>

definition v_minute :: "veh_minute \<Rightarrow> int" where
  "v_minute l = minute_of (timestamp l)"

definition w_minute :: "weather_obs \<Rightarrow> int" where
  "w_minute obs = minute_of (w_timestamp obs)"

definition merge_zone ::
  "(veh_minute \<Rightarrow> zone) \<Rightarrow> weather_obs list \<Rightarrow> zone \<Rightarrow> veh_minute list \<Rightarrow> veh_minute_w list" where
  "merge_zone zone_of w z grp =
     (let w_z = sort_key w_minute (filter (\<lambda>obs. w_zone obs = z) w)
      in map (\<lambda>l. let m = asof_nearest tolerance w_minute (v_minute l) w_z
                  in veh_minute.extend l
                       (veh_minute_w.fields (zone_of l)
                          (case m of None \<Rightarrow> None | Some obs \<Rightarrow> w_rain_mm obs)
                          (case m of None \<Rightarrow> None | Some obs \<Rightarrow> w_temp_c obs)))
           (sort_key v_minute grp))"

definition join_minute_with_weather ::
  "(veh_minute \<Rightarrow> zone) \<Rightarrow> veh_minute list \<Rightarrow> weather_obs list \<Rightarrow> veh_minute_w list" where
  "join_minute_with_weather zone_of v w =
     concat (map (\<lambda>z. merge_zone zone_of w z (filter (\<lambda>l. zone_of l = z) v))
                 (remdups (map zone_of v)))"

section \<open>Great-circle distance (hav\_km of join\_minute\_with\_weather.py)\<close>

text \<open>
  The haversine distance in kilometres, over the reals, with numpy's \<open>arctan2\<close> written
  out by quadrant.
\<close>

definition radians :: "real \<Rightarrow> real" where
  "radians x = x * pi / 180"

definition arctan2 :: "real \<Rightarrow> real \<Rightarrow> real" where
  "arctan2 y x =
     (if x > 0 then arctan (y / x)
      else if x < 0 \<and> y \<ge> 0 then arctan (y / x) + pi
      else if x < 0 then arctan (y / x) - pi
      else if y > 0 then pi / 2
      else if y < 0 then - pi / 2
      else 0)"

definition hav_km :: "real \<Rightarrow> real \<Rightarrow> real \<Rightarrow> real \<Rightarrow> real" where
  "hav_km lat1 lon1 lat2 lon2 =
     (let R = 6371;
          lat1r = radians lat1; lat2r = radians lat2;
          dlat = lat2r - lat1r;
          dlon = radians lon2 - radians lon1;
          a = (sin (dlat / 2))\<^sup>2 + cos lat1r * cos lat2r * (sin (dlon / 2))\<^sup>2
      in 2 * R * arctan2 (sqrt a) (sqrt (1 - a)))"

section \<open>Segment snapping (norm\_codes/geo/segment\_utils.py)\<close>

text \<open>
  A segment is a two-point line in longitude / latitude (the GeoDataFrame is built with
  \<open>crs="EPSG:4326"\<close>).  \<open>gpd.sjoin_nearest\<close> measures the planar distance between the
  geometries in the units of their coordinate reference system, here degrees:
  \<open>segment_distance\<close> is the point-to-segment distance on the raw coordinates.  With
  \<open>how="left"\<close> every point keeps a row: one per nearest segment (several on a tie), or
  one with a null segment and a null distance when there is no segment to match.
  \<open>snap_minutes\<close> then keeps the rows with \<open>dist_m <= max_dist_m\<close> (a null distance fails
  the comparison); \<open>max_dist_m\<close> defaults to 50.  The joined \<open>segment_id\<close> column is the
  field \<open>snap_segment_id\<close>.
\<close>

record segment =
  segment_id :: string
  shape_id :: string
  seq :: nat
  seg_geometry :: "(real \<times> real) \<times> (real \<times> real)"

definition point_distance :: "real \<times> real \<Rightarrow> real \<times> real \<Rightarrow> real" where
  "point_distance p q = sqrt ((fst p - fst q)\<^sup>2 + (snd p - snd q)\<^sup>2)"

definition segment_distance :: "real \<times> real \<Rightarrow> (real \<times> real) \<times> (real \<times> real) \<Rightarrow> real" where
  "segment_distance p ab =
     (let a = fst ab; b = snd ab;
          len2 = (fst b - fst a)\<^sup>2 + (snd b - snd a)\<^sup>2
      in if len2 = 0 then point_distance p a
         else let r = ((fst p - fst a) * (fst b - fst a) + (snd p - snd a) * (snd b - snd a)) / len2
              in if r \<le> 0 then point_distance p a
                 else if r \<ge> 1 then point_distance p b
                 else \<bar>((snd a - snd p) * (fst b - fst a) - (fst a - fst p) * (snd b - snd a)) / len2\<bar>
                        * sqrt len2)"

record snapped = veh_minute_scored +
  snap_segment_id :: "string option"
  dist_m :: cell

definition sjoin_nearest :: "veh_minute_scored list \<Rightarrow> segment list \<Rightarrow> snapped list" where
  "sjoin_nearest pts segments =
     concat (map (\<lambda>p. case (lon p, lat p) of
                         (Some x, Some y) \<Rightarrow>
                           (case map (\<lambda>s. segment_distance (x, y) (seg_geometry s)) segments of
                              [] \<Rightarrow> [veh_minute_scored.extend p (snapped.fields None None)]
                            | d # ds \<Rightarrow>
                                (let dmin = fold min ds d
                                 in map (\<lambda>s. veh_minute_scored.extend p
                                                (snapped.fields (Some (segment_id s)) (Some dmin)))
                                      (filter (\<lambda>s. segment_distance (x, y) (seg_geometry s) = dmin)
                                         segments)))
                       | _ \<Rightarrow> [veh_minute_scored.extend p (snapped.fields None None)]) pts)"

definition snap_minutes :: "veh_minute_scored list \<Rightarrow> segment list \<Rightarrow> real \<Rightarrow> snapped list" where
  "snap_minutes df_minute segments max_dist_m =
     filter (\<lambda>j. nan_le (dist_m j) max_dist_m) (sjoin_nearest df_minute segments)"

section \<open>Polygon aggregation (ed\_stress\_agg of app/app.py)\<close>

text \<open>
  A census polygon has an identifier, a name and a geometry; the point-in-polygon
  predicate of \<open>gpd.sjoin(..., predicate="within")\<close> is the parameter \<open>pt_within\<close>.  The
  columns \<open>value\<close>, \<open>n\<close>, \<open>count_hi\<close> and \<open>share_hi\<close> of the result are the fields
  \<open>agg_value\<close>, \<open>agg_n\<close>, \<open>agg_count_hi\<close> and \<open>agg_share_hi\<close>.  The left spatial join
  gives one row per (point, containing polygon), or one row with a null \<open>ed_id\<close> for a
  point in no polygon; the statistics are grouped by \<open>ed_id\<close> and merged back on
  \<open>ed_id\<close>, a polygon without a group getting NaN, which \<open>fillna\<close> turns into 0.
  \<open>count_hi / n\<close> is NaN for 0 / 0 (\<open>count_hi\<close> never exceeds \<open>n\<close>).  \<open>load_eds\<close> returns
  \<open>None\<close> without the geo libraries, and so does the aggregation.
\<close>

record 'g ed =
  ed_id :: string
  ed_name :: string
  geometry :: 'g

record 'g ed_agg = "'g ed" +
  agg_value :: real
  agg_n :: nat
  agg_count_hi :: nat
  agg_share_hi :: real

definition sjoin_within ::
  "(real \<times> real \<Rightarrow> 'g \<Rightarrow> bool) \<Rightarrow> veh_minute_scored list \<Rightarrow> 'g ed list
     \<Rightarrow> (cell \<times> string option) list" where
  "sjoin_within pt_within pts eds =
     concat (map (\<lambda>p. case (lon p, lat p) of
                         (Some x, Some y) \<Rightarrow>
                           (let hits = filter (\<lambda>e. pt_within (x, y) (geometry e)) eds
                            in if hits = [] then [(row_stress p, None)]
                               else map (\<lambda>e. (row_stress p, Some (ed_id e))) hits)
                       | _ \<Rightarrow> [(row_stress p, None)]) pts)"

definition group_rows :: "string \<Rightarrow> (cell \<times> string option) list \<Rightarrow> cell list" where
  "group_rows k join = map fst (filter (\<lambda>r. snd r = Some k) join)"

definition nan_mean :: "cell list \<Rightarrow> cell" where
  "nan_mean xs =
     (let ys = List.map_filter (\<lambda>x. x) xs
      in if ys = [] then None else Some (sum_list ys / real (length ys)))"

definition nan_max :: "cell list \<Rightarrow> cell" where
  "nan_max xs =
     (case List.map_filter (\<lambda>x. x) xs of [] \<Rightarrow> None | y # ys \<Rightarrow> Some (fold max ys y))"

definition nan_gt :: "cell \<Rightarrow> real \<Rightarrow> bool" where
  "nan_gt x c = (case x of None \<Rightarrow> False | Some a \<Rightarrow> a > c)"

text \<open>
  In the \<open>%>threshold\<close> branch the exceed-count is
  \<open>join.groupby("ed_id").apply(lambda s: (s["row_stress"] > t).sum()).rename("count_hi")\<close>.
  When no joined row has an \<open>ed_id\<close> (there are points, but none lies in a polygon), the
  groupby has no group and \<open>apply\<close> returns an empty DataFrame instead of a Series;
  \<open>rename("count_hi")\<close> on it raises, and no \<open>count_hi\<close> column would exist for the
  selection \<open>out[["n","count_hi"]]\<close> two lines later.  \<open>Avg\<close> and \<open>Max\<close> go through
  \<open>g.mean()\<close> and \<open>g.max()\<close>, which return an empty Series there, and are not affected.
\<close>

datatype agg_error = Empty_groupby_apply

definition ed_stress_agg ::
  "(real \<times> real \<Rightarrow> 'g \<Rightarrow> bool) \<Rightarrow> 'g ed list option \<Rightarrow> veh_minute_scored list \<Rightarrow> string
     \<Rightarrow> real option \<Rightarrow> agg_error + 'g ed_agg list option" where
  "ed_stress_agg pt_within eds_opt days metric thr =
     (case eds_opt of
        None \<Rightarrow> Inr None
      | Some eds \<Rightarrow>
         (let df = filter (\<lambda>r. lat r \<noteq> None \<and> lon r \<noteq> None) days
          in if df = []
             then Inr (Some (map (\<lambda>e. ed.extend e (ed_agg.fields 0 0 0 0)) eds))
             else
               (let join = sjoin_within pt_within df eds
                in if metric = ''Avg''
                   then Inr (Some (map (\<lambda>e. let g = group_rows (ed_id e) join;
                                                val = (if g = [] then None else nan_mean g)
                                            in ed.extend e
                                                 (ed_agg.fields (fillna 0 val) (length g) 0 0)) eds))
                   else if metric = ''Max''
                   then Inr (Some (map (\<lambda>e. let g = group_rows (ed_id e) join;
                                                val = (if g = [] then None else nan_max g)
                                            in ed.extend e
                                                 (ed_agg.fields (fillna 0 val) (length g) 0 0)) eds))
                   else
                     (let t = (case thr of None \<Rightarrow> 0.50 | Some x \<Rightarrow> x)
                      in if filter (\<lambda>r. snd r \<noteq> None) join = []
                         then Inl Empty_groupby_apply
                         else Inr (Some (map (\<lambda>e. let g = group_rows (ed_id e) join;
                                                  cnt = length (filter (\<lambda>s. nan_gt s t) g);
                                                  share = fillna 0
                                                    (if length g = 0 then None
                                                     else Some (real cnt / real (length g)))
                                              in ed.extend e
                                                   (ed_agg.fields share (length g) cnt share))
                                       eds))))))"

section \<open>Properties of the normalisers and the scorer\<close>

lemmas row_defs = veh_minute.defs veh_minute_w.defs veh_minute_w_vanished.defs
  veh_minute_d.defs veh_minute_ds.defs veh_minute_dsw.defs veh_minute_scored.defs



subsection \<open>Float32 rounding\<close>

lemma pow2_powr: "pow2 k = 2 powr of_int k"
  by (simp add: pow2_def powr_real_of_int inverse_eq_divide)

lemma pow2_pos [simp]: "0 < pow2 k"
  by (simp add: pow2_powr)

lemma pow2_nonneg [simp]: "0 \<le> pow2 k"
  using pow2_pos [of k] by linarith

lemma pow2_add: "pow2 (a + b) = pow2 a * pow2 b"
  by (simp add: pow2_powr powr_add)

lemma pow2_diff: "pow2 a / pow2 b = pow2 (a - b)"
  by (simp add: pow2_powr powr_diff)

lemma pow2_le_iff [simp]: "pow2 a \<le> pow2 b \<longleftrightarrow> a \<le> b"
  by (simp add: pow2_powr)

lemma pow2_less_iff [simp]: "pow2 a < pow2 b \<longleftrightarrow> a < b"
  by (simp add: pow2_powr)

lemma binade_iff:
  "x \<noteq> 0 \<Longrightarrow> binade x = k \<longleftrightarrow> pow2 k \<le> \<bar>x\<bar> \<and> \<bar>x\<bar> < pow2 (k + 1)"
  by (simp add: binade_def pow2_powr floor_log_eq_powr_iff)

lemma binade_bounds:
  assumes "x \<noteq> 0"
  shows "pow2 (binade x) \<le> \<bar>x\<bar>" and "\<bar>x\<bar> < pow2 (binade x + 1)"
  using binade_iff [OF assms, of "binade x"] by simp_all

lemma binade_mono:
  assumes "0 < x" "x \<le> y"
  shows "binade x \<le> binade y"
  unfolding binade_def using assms by (intro floor_mono) simp

lemma round_even_bounds: "\<lfloor>y\<rfloor> \<le> round_even y" "round_even y \<le> \<lfloor>y\<rfloor> + 1"
  by (simp_all add: round_even_def Let_def)

lemma round_even_of_int [simp]: "round_even (of_int n) = n"
  by (simp add: round_even_def)

lemma round_even_mono:
  assumes "a \<le> b"
  shows "round_even a \<le> round_even b"
proof (cases "\<lfloor>a\<rfloor> = \<lfloor>b\<rfloor>")
  case True
  have "a - of_int \<lfloor>b\<rfloor> \<le> b - of_int \<lfloor>b\<rfloor>" using assms by simp
  then show ?thesis
    by (auto simp: round_even_def Let_def True)
next
  case False
  then have "\<lfloor>a\<rfloor> < \<lfloor>b\<rfloor>" using floor_mono [OF assms] by linarith
  then show ?thesis
    using round_even_bounds(2) [of a] round_even_bounds(1) [of b] by linarith
qed

lemma round_even_nonneg: "0 \<le> y \<Longrightarrow> 0 \<le> round_even y"
  using round_even_mono [of 0 y] round_even_of_int [of 0] by simp

lemma quantum_pos [simp]: "0 < quantum x"
  by (simp add: quantum_def)

lemma quantum_nonneg [simp]: "0 \<le> quantum x"
  by (simp add: quantum_def)

lemma quantum_abs [simp]: "quantum (- x) = quantum x"
  by (simp add: quantum_def binade_def)

lemma round32_minus: "round32 (- x) = - round32 x"
  by (simp add: round32_def sgn_if)

lemma round32_nonneg:
  assumes "0 \<le> x"
  shows "0 \<le> round32 x"
proof (cases "x = 0")
  case True
  then show ?thesis by (simp add: round32_def)
next
  case False
  then have "0 < x" using assms by simp
  have "0 \<le> x / quantum x" by (rule divide_nonneg_pos [OF assms quantum_pos])
  then have r: "0 \<le> round_even (x / quantum x)" by (rule round_even_nonneg)
  have "0 \<le> of_int (round_even (x / quantum x)) * quantum x"
    by (rule mult_nonneg_nonneg) (use r in simp_all)
  then show ?thesis using \<open>0 < x\<close> by (simp add: round32_def)
qed

lemma round32_pos:
  "0 < x \<Longrightarrow> round32 x = of_int (round_even (x / quantum x)) * quantum x"
  by (simp add: round32_def)

text \<open>
  Rounding to nearest is monotone.  Within one binade it is the monotonicity of
  \<open>round_even\<close>; across binades the smaller argument rounds to at most the power of two that
  ends its binade, and the larger to at least the power of two that starts its own.
\<close>

lemma round32_pos_mono:
  assumes "0 < x" "x \<le> y"
  shows "round32 x \<le> round32 y"
proof -
  define k where "k = max (binade x) (- 126)"
  define k' where "k' = max (binade y) (- 126)"
  have y: "0 < y" using assms by linarith
  have kk: "k \<le> k'" unfolding k_def k'_def using binade_mono [OF assms] by linarith
  have qx: "quantum x = pow2 (k - 23)" and qy: "quantum y = pow2 (k' - 23)"
    by (simp_all add: quantum_def k_def k'_def)
  have rx: "round32 x = of_int (round_even (x / pow2 (k - 23))) * pow2 (k - 23)"
    using round32_pos [OF assms(1)] by (simp add: qx)
  have ry: "round32 y = of_int (round_even (y / pow2 (k' - 23))) * pow2 (k' - 23)"
    using round32_pos [OF y] by (simp add: qy)
  show ?thesis
  proof (cases "k = k'")
    case True
    have "x / pow2 (k - 23) \<le> y / pow2 (k - 23)"
      using assms(2) by (intro divide_right_mono) simp_all
    then have "round_even (x / pow2 (k - 23)) \<le> round_even (y / pow2 (k - 23))"
      by (rule round_even_mono)
    then have "of_int (round_even (x / pow2 (k - 23))) * pow2 (k - 23)
                 \<le> of_int (round_even (y / pow2 (k - 23))) * pow2 (k - 23)"
      by (intro mult_right_mono) simp_all
    then show ?thesis unfolding rx ry True [symmetric] .
  next
    case False
    then have lt: "k < k'" using kk by simp
    then have k'b: "k' = binade y" unfolding k'_def k_def by linarith
    have "\<bar>x\<bar> < pow2 (binade x + 1)" using assms(1) by (intro binade_bounds) simp
    moreover have "pow2 (binade x + 1) \<le> pow2 (k + 1)" by (simp add: k_def)
    ultimately have xlt: "x \<le> pow2 (k + 1)" using assms(1) by linarith
    have "pow2 (binade y) \<le> \<bar>y\<bar>" using y by (intro binade_bounds) simp
    then have yge: "pow2 k' \<le> y" using y k'b by simp
    have "x / pow2 (k - 23) \<le> pow2 (k + 1) / pow2 (k - 23)"
      using xlt by (intro divide_right_mono) simp_all
    also have "pow2 (k + 1) / pow2 (k - 23) = of_int 16777216"
      by (simp add: pow2_diff) (simp add: pow2_def)
    finally have "round_even (x / pow2 (k - 23)) \<le> round_even (of_int 16777216)"
      by (rule round_even_mono)
    then have "round_even (x / pow2 (k - 23)) \<le> 16777216" by (simp only: round_even_of_int)
    then have "of_int (round_even (x / pow2 (k - 23))) * pow2 (k - 23)
                 \<le> of_int 16777216 * pow2 (k - 23)"
      by (intro mult_right_mono) simp_all
    also have "of_int 16777216 * pow2 (k - 23) = pow2 24 * pow2 (k - 23)"
      by (simp add: pow2_def [of 24])
    also have "\<dots> = pow2 (k + 1)"
      using pow2_add [of 24 "k - 23"] by (simp add: add.commute)
    finally have ux: "round32 x \<le> pow2 (k + 1)" unfolding rx .
    have "pow2 k' / pow2 (k' - 23) \<le> y / pow2 (k' - 23)"
      using yge by (intro divide_right_mono) simp_all
    moreover have "pow2 k' / pow2 (k' - 23) = of_int 8388608"
      by (simp add: pow2_diff) (simp add: pow2_def)
    ultimately have "round_even (of_int 8388608) \<le> round_even (y / pow2 (k' - 23))"
      using round_even_mono by metis
    then have "8388608 \<le> round_even (y / pow2 (k' - 23))" by (simp only: round_even_of_int)
    then have "of_int 8388608 * pow2 (k' - 23)
                 \<le> of_int (round_even (y / pow2 (k' - 23))) * pow2 (k' - 23)"
      by (intro mult_right_mono) simp_all
    moreover have "of_int 8388608 * pow2 (k' - 23) = pow2 23 * pow2 (k' - 23)"
      by (simp add: pow2_def [of 23])
    moreover have "pow2 23 * pow2 (k' - 23) = pow2 k'"
      using pow2_add [of 23 "k' - 23"] by simp
    ultimately have ly: "pow2 k' \<le> round32 y" unfolding ry by linarith
    have "pow2 (k + 1) \<le> pow2 k'" using lt by simp
    with ux ly show ?thesis by linarith
  qed
qed

lemma round32_zero [simp]: "round32 0 = 0"
  by (simp add: round32_def)

lemma round32_mono:
  assumes "x \<le> y"
  shows "round32 x \<le> round32 y"
proof -
  consider "0 < x" | "x \<le> 0" "0 \<le> y" | "y < 0" by linarith
  then show ?thesis
  proof cases
    case 1
    then show ?thesis using assms by (rule round32_pos_mono)
  next
    case 2
    have "round32 x \<le> 0" using round32_nonneg [of "- x"] 2(1) by (simp add: round32_minus)
    moreover have "0 \<le> round32 y" using 2(2) by (rule round32_nonneg)
    ultimately show ?thesis by linarith
  next
    case 3
    then have "0 < - y" "- y \<le> - x" using assms by simp_all
    then have "round32 (- y) \<le> round32 (- x)" by (rule round32_pos_mono)
    then show ?thesis by (simp add: round32_minus)
  qed
qed

text \<open>
  How a rounding is evaluated: once the binade \<open>k\<close> of the argument is known, the spacing
  is \<open>2 ^ (k - 23)\<close> and only \<open>round_even\<close> of a rational is left.
\<close>

lemma round32_eval:
  assumes "pow2 k \<le> \<bar>x\<bar>" "\<bar>x\<bar> < pow2 (k + 1)" "- 126 \<le> k"
  shows "round32 x = sgn x * (of_int (round_even (\<bar>x\<bar> / pow2 (k - 23))) * pow2 (k - 23))"
proof -
  have "0 < \<bar>x\<bar>" using assms(1) pow2_pos [of k] by linarith
  then have nz: "x \<noteq> 0" by simp
  then have "binade x = k" using assms(1,2) by (simp add: binade_iff)
  then have "quantum x = pow2 (k - 23)" using assms(3) by (simp add: quantum_def)
  then show ?thesis using nz by (simp add: round32_def)
qed

lemma f32_le_PInf [simp]: "f32_le v PInf"
  by (cases v) simp_all

lemma f32_le_refl [simp]: "f32_le v v"
  by (cases v) simp_all

lemma f32_le_trans: "f32_le a b \<Longrightarrow> f32_le b c \<Longrightarrow> f32_le a c"
  by (cases a; cases b; cases c) simp_all

lemma f32_le_total: "f32_le a b \<or> f32_le b a"
  by (cases a; cases b) auto

lemma to_f32_mono:
  assumes "x \<le> y"
  shows "f32_le (to_f32 x) (to_f32 y)"
  using round32_mono [OF assms] pow2_pos [of 128]
  by (auto simp: to_f32_def Let_def)

lemma f32_div_mono: "0 < c \<Longrightarrow> f32_le a b \<Longrightarrow> f32_le (f32_div a c) (f32_div b c)"
  by (cases a; cases b) (auto simp: f32_div_def divide_right_mono intro!: to_f32_mono)

lemma f32_sub_mono: "f32_le a b \<Longrightarrow> f32_le (f32_sub a c) (f32_sub b c)"
  by (cases a; cases b) (auto simp: f32_sub_def intro!: to_f32_mono)

lemma f32_mul_mono: "0 \<le> c \<Longrightarrow> f32_le a b \<Longrightarrow> f32_le (f32_mul c a) (f32_mul c b)"
  by (cases a; cases b)
     (auto simp: f32_mul_def round32_nonneg mult_left_mono intro!: to_f32_mono)

lemma f32_add_mono: "f32_le a b \<Longrightarrow> f32_le (f32_add c a) (f32_add c b)"
  by (cases a; cases b) (auto simp: f32_add_def intro!: to_f32_mono)

lemma f32_minimum_mono: "f32_le a b \<Longrightarrow> f32_le (f32_minimum a c) (f32_minimum b c)"
  by (cases a; cases b) (auto simp: f32_minimum_def)

lemma f32_clip_mono: "lo \<le> hi \<Longrightarrow> f32_le a b \<Longrightarrow> f32_clip lo hi a \<le> f32_clip lo hi b"
  by (cases a; cases b) (auto simp: f32_clip_def)

subsection \<open>The delay curve in float32\<close>

text \<open>
  Each bucket formula is a composition of monotone float32 operations, and so is the
  conversion to minutes.
\<close>

lemma bucket1_mono: "f32_le a b \<Longrightarrow> f32_le (bucket1 a) (bucket1 b)"
  unfolding bucket1_def by (intro f32_mul_mono f32_div_mono) simp_all

lemma bucket2_mono: "f32_le a b \<Longrightarrow> f32_le (bucket2 a) (bucket2 b)"
  unfolding bucket2_def by (intro f32_add_mono f32_mul_mono f32_div_mono f32_sub_mono) simp_all

lemma bucket3_mono: "f32_le a b \<Longrightarrow> f32_le (bucket3 a) (bucket3 b)"
  unfolding bucket3_def
  by (intro f32_add_mono f32_mul_mono f32_div_mono f32_minimum_mono f32_sub_mono) simp_all

lemma minutes_f32_mono: "s \<le> s' \<Longrightarrow> f32_le (minutes_f32 (Some s)) (minutes_f32 (Some s'))"
  unfolding minutes_f32_def fillna_def by (intro f32_div_mono to_f32_mono) simp_all

lemmas round32_at = round32_eval [of "- 27"] round32_eval [of "- 25"] round32_eval [of "- 20"]
  round32_eval [of "- 19"] round32_eval [of "- 2"] round32_eval [of "- 1"] round32_eval [of 0]
  round32_eval [of 1] round32_eval [of 2] round32_eval [of 3] round32_eval [of 4]
  round32_eval [of 5] round32_eval [of 6] round32_eval [of 8] round32_eval [of 9]
  round32_eval [of 10] round32_eval [of 11]

lemmas delay_norm_f32_eval = delay_norm_f32_def delay_out_def minutes_f32_def bucket1_def
  bucket2_def bucket3_def f32_div_def f32_sub_def f32_mul_def f32_add_def f32_minimum_def
  f32_clip_def to_f32_def fillna_def Let_def round32_at pow2_def round_even_def

text \<open>
  The float32 constants: \<open>0.30\<close> is \<open>10066330 / 2 ^ 25\<close>, \<open>0.40\<close> is \<open>13421773 / 2 ^ 25\<close> and
  \<open>0.70\<close> is \<open>11744051 / 2 ^ 24\<close>.  The sum of the first two, \<open>23488103 / 2 ^ 25\<close>, lies midway
  between the float32 numbers \<open>11744051 / 2 ^ 24\<close> and \<open>11744052 / 2 ^ 24\<close>, and the tie goes
  to the even one, the larger: the second formula ends above the point where the third
  starts.
\<close>

lemma round32_constants:
  "round32 0.30 = 10066330 / 2 ^ 25" "round32 0.40 = 13421773 / 2 ^ 25"
  "round32 0.70 = 11744051 / 2 ^ 24"
  "round32 (10066330 / 2 ^ 25 + 13421773 / 2 ^ 25) = 11744052 / 2 ^ 24"
  by (simp_all add: round32_at pow2_def round_even_def)

lemma delay_norm_f32_300: "delay_norm_f32 (Some 300) = 10066330 / 2 ^ 25"
  by (simp add: delay_norm_f32_eval)

lemma delay_norm_f32_900: "delay_norm_f32 (Some 900) = 11744052 / 2 ^ 24"
  by (simp add: delay_norm_f32_eval)

lemma delay_norm_f32_3600: "delay_norm_f32 (Some 3600) = 1"
  by (simp add: delay_norm_f32_eval)

lemma delay_norm_f32_just_above_900:
  "delay_norm_f32 (Some 900.0001) = 11744051 / 2 ^ 24"
  by (simp add: delay_norm_f32_eval)

lemma minutes_f32_900: "minutes_f32 (Some 900) = Fin 15"
  by (simp add: delay_norm_f32_eval)

lemma minutes_f32_just_above_900: "minutes_f32 (Some 900.0001) = Fin (15728642 / 2 ^ 20)"
  by (simp add: delay_norm_f32_eval)

lemma bucket_seam_5: "bucket1 (Fin 5) = bucket2 (Fin 5)"
  by (simp add: delay_norm_f32_eval)

lemma bucket_seam_15:
  "bucket2 (Fin 15) = Fin (11744052 / 2 ^ 24)" "bucket3 (Fin 15) = Fin (11744051 / 2 ^ 24)"
  by (simp_all add: delay_norm_f32_eval)

lemma delay_norm_f32_out: "delay_norm_f32 x = f32_clip 0 1 (delay_out (minutes_f32 x))"
  by (simp add: delay_norm_f32_def Let_def)

lemma delay_out_mono_low:
  assumes "f32_le d d'" and "f32_le d' (Fin 15)"
  shows "f32_le (delay_out d) (delay_out d')"
proof -
  have d15: "f32_le d (Fin 15)" using assms by (rule f32_le_trans)
  show ?thesis
  proof (cases "f32_le d' (Fin 5)")
    case True
    then have "f32_le d (Fin 5)" using assms(1) f32_le_trans by blast
    with True show ?thesis by (simp add: delay_out_def bucket1_mono [OF assms(1)])
  next
    case False
    then have five: "f32_le (Fin 5) d'" using f32_le_total by blast
    show ?thesis
    proof (cases "f32_le d (Fin 5)")
      case True
      have "f32_le (bucket1 d) (bucket1 (Fin 5))" using True by (rule bucket1_mono)
      moreover have "f32_le (bucket2 (Fin 5)) (bucket2 d')" using five by (rule bucket2_mono)
      ultimately have "f32_le (bucket1 d) (bucket2 d')"
        unfolding bucket_seam_5 by (rule f32_le_trans)
      then show ?thesis using True False assms(2) by (simp add: delay_out_def)
    next
      case F: False
      then show ?thesis
        using False d15 assms(2) by (simp add: delay_out_def bucket2_mono [OF assms(1)])
    qed
  qed
qed

lemma delay_out_mono_high:
  assumes "f32_le d d'" and "\<not> f32_le d (Fin 15)"
  shows "f32_le (delay_out d) (delay_out d')"
proof -
  have a: "\<not> f32_le d' (Fin 15)" using assms f32_le_trans by blast
  have "f32_le (Fin 5) (Fin 15)" by simp
  then have b: "\<not> f32_le d (Fin 5)" "\<not> f32_le d' (Fin 5)"
    using assms(2) a f32_le_trans by blast+
  show ?thesis using a b assms(2) by (simp add: delay_out_def bucket3_mono [OF assms(1)])
qed

lemma delay_norm_f32_mono_low:
  assumes "s \<le> s'" and "s' \<le> 900"
  shows "delay_norm_f32 (Some s) \<le> delay_norm_f32 (Some s')"
proof -
  have "f32_le (minutes_f32 (Some s')) (minutes_f32 (Some 900))"
    using assms(2) by (rule minutes_f32_mono)
  then have "f32_le (minutes_f32 (Some s')) (Fin 15)" by (simp only: minutes_f32_900)
  with minutes_f32_mono [OF assms(1)]
  have "f32_le (delay_out (minutes_f32 (Some s))) (delay_out (minutes_f32 (Some s')))"
    by (rule delay_out_mono_low)
  then show ?thesis unfolding delay_norm_f32_out by (intro f32_clip_mono) simp_all
qed

lemma delay_norm_f32_mono_high:
  assumes "s \<le> s'" and "900.0001 \<le> s"
  shows "delay_norm_f32 (Some s) \<le> delay_norm_f32 (Some s')"
proof -
  have "f32_le (minutes_f32 (Some 900.0001)) (minutes_f32 (Some s))"
    using assms(2) by (rule minutes_f32_mono)
  then have "f32_le (Fin (15728642 / 2 ^ 20)) (minutes_f32 (Some s))"
    by (simp only: minutes_f32_just_above_900)
  moreover have "\<not> f32_le (Fin (15728642 / 2 ^ 20)) (Fin 15)" by simp
  ultimately have "\<not> f32_le (minutes_f32 (Some s)) (Fin 15)"
    using f32_le_trans by blast
  with minutes_f32_mono [OF assms(1)]
  have "f32_le (delay_out (minutes_f32 (Some s))) (delay_out (minutes_f32 (Some s')))"
    by (rule delay_out_mono_high)
  then show ?thesis unfolding delay_norm_f32_out by (intro f32_clip_mono) simp_all
qed

text \<open>
  Across the seam the value can fall, but by no more than the distance of the two
  float32 numbers that meet there, \<open>1 / 2 ^ 24\<close>.
\<close>

lemma delay_norm_f32_mono_seam:
  assumes "s \<le> s'"
  shows "delay_norm_f32 (Some s) \<le> delay_norm_f32 (Some s') + 1 / 2 ^ 24"
proof -
  let ?d = "minutes_f32 (Some s)" and ?d' = "minutes_f32 (Some s')"
  have dd: "f32_le ?d ?d'" using assms by (rule minutes_f32_mono)
  consider "f32_le ?d' (Fin 15)" | "\<not> f32_le ?d (Fin 15)"
    | "f32_le ?d (Fin 15)" "\<not> f32_le ?d' (Fin 15)" by blast
  then show ?thesis
  proof cases
    case 1
    with dd have "f32_le (delay_out ?d) (delay_out ?d')" by (rule delay_out_mono_low)
    then have "delay_norm_f32 (Some s) \<le> delay_norm_f32 (Some s')"
      unfolding delay_norm_f32_out by (intro f32_clip_mono) simp_all
    then show ?thesis by simp
  next
    case 2
    with dd have "f32_le (delay_out ?d) (delay_out ?d')" by (rule delay_out_mono_high)
    then have "delay_norm_f32 (Some s) \<le> delay_norm_f32 (Some s')"
      unfolding delay_norm_f32_out by (intro f32_clip_mono) simp_all
    then show ?thesis by simp
  next
    case 3
    have "f32_le (delay_out ?d) (delay_out (Fin 15))"
      using 3(1) by (intro delay_out_mono_low) simp_all
    then have "f32_clip 0 1 (delay_out ?d) \<le> f32_clip 0 1 (delay_out (Fin 15))"
      by (intro f32_clip_mono) simp_all
    moreover have "f32_clip 0 1 (delay_out (Fin 15)) = 11744052 / 2 ^ 24"
      by (simp add: delay_out_def bucket_seam_15 f32_clip_def)
    ultimately have lo: "delay_norm_f32 (Some s) \<le> 11744052 / 2 ^ 24"
      unfolding delay_norm_f32_out by simp
    have "f32_le (Fin 15) ?d'" using 3(2) f32_le_total by blast
    then have "f32_le (bucket3 (Fin 15)) (bucket3 ?d')" by (rule bucket3_mono)
    then have "f32_clip 0 1 (bucket3 (Fin 15)) \<le> f32_clip 0 1 (bucket3 ?d')"
      by (intro f32_clip_mono) simp_all
    moreover have "f32_clip 0 1 (bucket3 (Fin 15)) = 11744051 / 2 ^ 24"
      by (simp add: bucket_seam_15 f32_clip_def)
    moreover have "delay_out ?d' = bucket3 ?d'"
    proof -
      have "f32_le (Fin 5) (Fin 15)" by simp
      then have "\<not> f32_le ?d' (Fin 5)" using 3(2) f32_le_trans by blast
      then show ?thesis using 3(2) by (simp add: delay_out_def)
    qed
    ultimately have hi: "11744051 / 2 ^ 24 \<le> delay_norm_f32 (Some s')"
      unfolding delay_norm_f32_out by simp
    from lo hi show ?thesis by simp
  qed
qed

lemma delay_norm_f32_range: "0 \<le> delay_norm_f32 x \<and> delay_norm_f32 x \<le> 1"
  unfolding delay_norm_f32_out by (cases "delay_out (minutes_f32 x)") (simp_all add: f32_clip_def)

subsection \<open>Rounding error of the delay curve\<close>

text \<open>
  One rounding moves a number by at most half the spacing at that number, that is by
  at most \<open>\<bar>x\<bar> / 2 ^ 24\<close>, or \<open>1 / 2 ^ 150\<close> among the subnormal numbers.  For a delay
  between 0 and 3600 s every intermediate result is finite, and the errors of the cast, of
  the division by 60 and of the four or five operations of a bucket add up to less than
  \<open>10 ^ (- 6)\<close>; below 0 and above 3600 s both curves are constant.
\<close>

lemma round_even_err: "\<bar>of_int (round_even y) - y\<bar> \<le> 1 / 2"
proof -
  have "of_int \<lfloor>y\<rfloor> \<le> y" "y < of_int \<lfloor>y\<rfloor> + 1" by linarith+
  then show ?thesis by (auto simp: round_even_def Let_def)
qed

lemma round32_err_quantum: "\<bar>round32 x - x\<bar> \<le> quantum x / 2"
proof (cases "x = 0")
  case True
  then show ?thesis by simp
next
  case False
  let ?q = "quantum x"
  let ?r = "of_int (round_even (\<bar>x\<bar> / ?q)) :: real"
  have qnz: "?q \<noteq> 0" using quantum_pos [of x] by linarith
  have "round32 x - x = sgn x * (?r * ?q - \<bar>x\<bar>)"
    using False by (simp add: round32_def sgn_if algebra_simps)
  then have "\<bar>round32 x - x\<bar> = \<bar>?r * ?q - \<bar>x\<bar>\<bar>"
    using False by (simp add: abs_mult sgn_if)
  also have "?r * ?q - \<bar>x\<bar> = (?r - \<bar>x\<bar> / ?q) * ?q"
    using qnz by (simp add: field_simps)
  also have "\<bar>(?r - \<bar>x\<bar> / ?q) * ?q\<bar> = \<bar>?r - \<bar>x\<bar> / ?q\<bar> * ?q"
    by (simp add: abs_mult)
  also have "\<dots> \<le> 1 / 2 * ?q"
    by (intro mult_right_mono round_even_err) simp
  finally show ?thesis by simp
qed

lemma round32_err: "\<bar>round32 x - x\<bar> \<le> \<bar>x\<bar> / 2 ^ 24 + 1 / 2 ^ 150"
proof (cases "x = 0")
  case True
  then show ?thesis by simp
next
  case False
  show ?thesis
  proof (cases "- 126 \<le> binade x")
    case True
    then have "quantum x = pow2 (binade x - 23)" by (simp add: quantum_def max_def)
    also have "\<dots> = pow2 (binade x) * pow2 (- 23)"
      using pow2_add [of "binade x" "- 23"] by simp
    also have "\<dots> \<le> \<bar>x\<bar> * pow2 (- 23)"
      using binade_bounds(1) [OF False] by (intro mult_right_mono) simp_all
    finally have "quantum x / 2 \<le> \<bar>x\<bar> / 2 ^ 24" by (simp add: pow2_def)
    with round32_err_quantum [of x] show ?thesis by simp
  next
    case F: False
    then have "quantum x = pow2 (- 149)" by (simp add: quantum_def max_def)
    then have "quantum x / 2 = 1 / 2 ^ 150" by (simp add: pow2_def)
    with round32_err_quantum [of x] have "\<bar>round32 x - x\<bar> \<le> 1 / 2 ^ 150" by simp
    moreover have "0 \<le> \<bar>x\<bar> / 2 ^ 24" by simp
    ultimately show ?thesis by linarith
  qed
qed

lemma to_f32_Fin:
  "\<bar>round32 x\<bar> < pow2 128 \<Longrightarrow> to_f32 x = Fin (round32 x)"
  by (auto simp: to_f32_def Let_def)

lemma delay_norm1_lipschitz:
  "\<bar>delay_norm1 (Some s) - delay_norm1 (Some t)\<bar> \<le> \<bar>s - t\<bar> / 1000"
  unfolding delay_norm1_def fillna_def clip_def Let_def
  by (auto simp: min_def max_def field_simps abs_if)

lemma round32_fixed:
  "round32 1 = 1" "round32 2 = 2" "round32 10 = 10" "round32 45 = 45" "round32 60 = 60"
  "round32 3600 = 3600"
  by (simp_all add: round32_at pow2_def round_even_def)

lemma round32_step:
  assumes "0 \<le> x" "x \<le> b" "round32 b = b" "b \<le> 3600"
  shows "to_f32 x = Fin (round32 x)" "0 \<le> round32 x" "round32 x \<le> b"
    "\<bar>round32 x - x\<bar> \<le> x / 2 ^ 24 + 1 / 2 ^ 150"
proof -
  show nn: "0 \<le> round32 x" using assms(1) by (rule round32_nonneg)
  show le: "round32 x \<le> b" using round32_mono [OF assms(2)] assms(3) by simp
  have "\<bar>round32 x\<bar> < pow2 128" using nn le assms(4) by (simp add: pow2_def)
  then show "to_f32 x = Fin (round32 x)" by (rule to_f32_Fin)
  show "\<bar>round32 x - x\<bar> \<le> x / 2 ^ 24 + 1 / 2 ^ 150"
    using round32_err [of x] assms(1) by simp
qed

lemma minutes_f32_finite:
  assumes "0 \<le> s" "s \<le> 3600"
  obtains dd where "minutes_f32 (Some s) = Fin dd" "0 \<le> dd" "dd \<le> 60"
    "\<bar>60 * dd - s\<bar> \<le> 7200 / 2 ^ 24 + 61 / 2 ^ 150"
proof -
  define x where "x = round32 s"
  have b: "(3600 :: real) \<le> 3600" "(60 :: real) \<le> 3600" by simp_all
  note sx = round32_step [OF assms round32_fixed(6) b(1), folded x_def]
  have x60: "0 \<le> x / 60" "x / 60 \<le> 60" using sx(2,3) by simp_all
  define dd where "dd = round32 (x / 60)"
  note sd = round32_step [OF x60 round32_fixed(5) b(2), folded dd_def]
  have "minutes_f32 (Some s) = Fin dd"
    using sx(1) sd(1) by (simp add: minutes_f32_def fillna_def f32_div_def)
  moreover have "\<bar>60 * dd - s\<bar> \<le> 7200 / 2 ^ 24 + 61 / 2 ^ 150"
  proof -
    define e :: real where "e = 1 / 2 ^ 150"
    have e: "0 \<le> e" by (simp add: e_def)
    have 1: "\<bar>x - s\<bar> \<le> s / 2 ^ 24 + e" using sx(4) by (simp add: e_def)
    have 2: "\<bar>dd - x / 60\<bar> \<le> x / 60 / 2 ^ 24 + e" using sd(4) by (simp add: e_def)
    have "\<bar>60 * dd - s\<bar> \<le> 7200 / 2 ^ 24 + 61 * e"
      using 1 2 sx(2,3) assms e by (simp add: abs_le_iff) 
    then show ?thesis by (simp add: e_def)
  qed
  ultimately show ?thesis using sd(2,3) that by blast
qed

lemma bucket1_err:
  assumes "0 \<le> dd" "dd \<le> 5"
  obtains y where "bucket1 (Fin dd) = Fin y" "\<bar>y - 0.30 * (dd / 5)\<bar> \<le> 3 / 2 ^ 24"
proof -
  define e :: real where "e = 1 / 2 ^ 150"
  have e: "0 \<le> e" "e \<le> 1 / 2 ^ 30" by (simp_all add: e_def)
  have b: "(1 :: real) \<le> 3600" by simp
  have a: "0 \<le> dd / 5" "dd / 5 \<le> 1" using assms by simp_all
  define ra where "ra = round32 (dd / 5)"
  note sa = round32_step [OF a round32_fixed(1) b, folded ra_def e_def]
  define p where "p = 10066330 / 2 ^ 25 * ra"
  have p: "0 \<le> p" "p \<le> 1" using sa(2,3) by (simp_all add: p_def)
  define rp where "rp = round32 p"
  note sp = round32_step [OF p round32_fixed(1) b, folded rp_def e_def]
  have "bucket1 (Fin dd) = Fin rp"
    unfolding bucket1_def f32_mul_def round32_constants
    using sa(1) sp(1) by (simp add: f32_div_def p_def)
  moreover have "\<bar>rp - 0.30 * (dd / 5)\<bar> \<le> 3 / 2 ^ 24"
  proof (rule abs_leI)
    show "rp - 0.30 * (dd / 5) \<le> 3 / 2 ^ 24"
      using sa(2-4) sp(2-4) a e by (simp add: abs_le_iff p_def diff_divide_distrib)
    show "- (rp - 0.30 * (dd / 5)) \<le> 3 / 2 ^ 24"
      using sa(2-4) sp(2-4) a e by (simp add: abs_le_iff p_def diff_divide_distrib)
  qed
  ultimately show ?thesis using that by blast
qed

lemma bucket2_err:
  assumes "5 \<le> dd" "dd \<le> 15"
  obtains y where "bucket2 (Fin dd) = Fin y"
    "\<bar>y - (0.30 + 0.40 * ((dd - 5) / 10))\<bar> \<le> 3 / 2 ^ 24"
proof -
  define e :: real where "e = 1 / 2 ^ 150"
  have e: "0 \<le> e" "e \<le> 1 / 2 ^ 30" by (simp_all add: e_def)
  have b: "(1 :: real) \<le> 3600" "(2 :: real) \<le> 3600" "(10 :: real) \<le> 3600" by simp_all
  have x: "0 \<le> dd - 5" "dd - 5 \<le> 10" using assms by simp_all
  define t1 where "t1 = round32 (dd - 5)"
  note s1 = round32_step [OF x round32_fixed(3) b(3), folded t1_def e_def]
  have a: "0 \<le> t1 / 10" "t1 / 10 \<le> 1" using s1(2,3) by simp_all
  define t2 where "t2 = round32 (t1 / 10)"
  note s2 = round32_step [OF a round32_fixed(1) b(1), folded t2_def e_def]
  define p where "p = 13421773 / 2 ^ 25 * t2"
  have p: "0 \<le> p" "p \<le> 1" using s2(2,3) by (simp_all add: p_def)
  define t3 where "t3 = round32 p"
  note s3 = round32_step [OF p round32_fixed(1) b(1), folded t3_def e_def]
  define q where "q = 10066330 / 2 ^ 25 + t3"
  have q: "0 \<le> q" "q \<le> 2" using s3(2,3) by (simp_all add: q_def)
  define t4 where "t4 = round32 q"
  note s4 = round32_step [OF q round32_fixed(2) b(2), folded t4_def e_def]
  have "bucket2 (Fin dd) = Fin t4"
    unfolding bucket2_def f32_mul_def f32_add_def round32_constants
    using s1(1) s2(1) s3(1) s4(1)
    by (simp add: f32_div_def f32_sub_def p_def q_def)
  moreover have "\<bar>y - (0.30 + 0.40 * ((dd - 5) / 10))\<bar> \<le> 3 / 2 ^ 24" if "y = t4" for y
  proof -
    have 1: "\<bar>t2 - (dd - 5) / 10\<bar> \<le> 2 / 2 ^ 24 + 2 * e"
      using s1(2-4) s2(2-4) x e by (simp add: abs_le_iff diff_divide_distrib)
    have 2: "\<bar>p - 0.40 * ((dd - 5) / 10)\<bar> \<le> 1 / 2 ^ 24 + e"
      using 1 x s2(2,3) e by (simp add: abs_le_iff p_def diff_divide_distrib)
    have 3: "\<bar>t3 - 0.40 * ((dd - 5) / 10)\<bar> \<le> 3 / 2 ^ 25 + 2 * e"
      using 2 s3(2-4) x e by (simp add: abs_le_iff diff_divide_distrib)
    have 4: "\<bar>q - (0.30 + 0.40 * ((dd - 5) / 10))\<bar> \<le> 7 / 2 ^ 26 + 2 * e"
      using 3 by (simp add: abs_le_iff q_def diff_divide_distrib)
    show ?thesis unfolding that
    proof (rule abs_leI)
      show "t4 - (0.30 + 0.40 * ((dd - 5) / 10)) \<le> 3 / 2 ^ 24"
        using 4 s4(2-4) x e by (simp add: abs_le_iff diff_divide_distrib)
      show "- (t4 - (0.30 + 0.40 * ((dd - 5) / 10))) \<le> 3 / 2 ^ 24"
        using 4 s4(2-4) x e by (simp add: abs_le_iff diff_divide_distrib)
    qed
  qed
  ultimately show ?thesis using that by blast
qed

lemma bucket3_err:
  assumes "15 \<le> dd" "dd \<le> 60"
  obtains y where "bucket3 (Fin dd) = Fin y"
    "\<bar>y - (0.70 + 0.30 * (min (dd - 15) 45 / 45))\<bar> \<le> 3 / 2 ^ 24"
proof -
  define e :: real where "e = 1 / 2 ^ 150"
  have e: "0 \<le> e" "e \<le> 1 / 2 ^ 30" by (simp_all add: e_def)
  have b: "(1 :: real) \<le> 3600" "(2 :: real) \<le> 3600" "(45 :: real) \<le> 3600" by simp_all
  have x: "0 \<le> dd - 15" "dd - 15 \<le> 45" using assms by simp_all
  define t1 where "t1 = round32 (dd - 15)"
  note s1 = round32_step [OF x round32_fixed(4) b(3), folded t1_def e_def]
  have a: "0 \<le> t1 / 45" "t1 / 45 \<le> 1" using s1(2,3) by simp_all
  define t2 where "t2 = round32 (t1 / 45)"
  note s2 = round32_step [OF a round32_fixed(1) b(1), folded t2_def e_def]
  define p where "p = 10066330 / 2 ^ 25 * t2"
  have p: "0 \<le> p" "p \<le> 1" using s2(2,3) by (simp_all add: p_def)
  define t3 where "t3 = round32 p"
  note s3 = round32_step [OF p round32_fixed(1) b(1), folded t3_def e_def]
  define q where "q = 11744051 / 2 ^ 24 + t3"
  have q: "0 \<le> q" "q \<le> 2" using s3(2,3) by (simp_all add: q_def)
  define t4 where "t4 = round32 q"
  note s4 = round32_step [OF q round32_fixed(2) b(2), folded t4_def e_def]
  have "bucket3 (Fin dd) = Fin t4"
    unfolding bucket3_def f32_mul_def f32_add_def round32_constants
    using s1(1,3) s2(1) s3(1) s4(1)
    by (simp add: f32_div_def f32_sub_def f32_minimum_def p_def q_def min_def)
  moreover have "\<bar>y - (0.70 + 0.30 * (min (dd - 15) 45 / 45))\<bar> \<le> 3 / 2 ^ 24" if "y = t4" for y
  proof -
    have m: "min (dd - 15) 45 = dd - 15" using x by simp
    have 1: "\<bar>t2 - (dd - 15) / 45\<bar> \<le> 2 / 2 ^ 24 + 2 * e"
      using s1(2-4) s2(2-4) x e by (simp add: abs_le_iff diff_divide_distrib)
    have 2: "\<bar>p - 0.30 * ((dd - 15) / 45)\<bar> \<le> 1 / 2 ^ 24 + e"
      using 1 x s2(2,3) e by (simp add: abs_le_iff p_def diff_divide_distrib)
    have 3: "\<bar>t3 - 0.30 * ((dd - 15) / 45)\<bar> \<le> 3 / 2 ^ 25 + 2 * e"
      using 2 s3(2-4) x e by (simp add: abs_le_iff diff_divide_distrib)
    have 4: "\<bar>q - (0.70 + 0.30 * ((dd - 15) / 45))\<bar> \<le> 7 / 2 ^ 26 + 2 * e"
      using 3 by (simp add: abs_le_iff q_def diff_divide_distrib)
    show ?thesis unfolding that m
    proof (rule abs_leI)
      show "t4 - (0.70 + 0.30 * ((dd - 15) / 45)) \<le> 3 / 2 ^ 24"
        using 4 s4(2-4) x e by (simp add: abs_le_iff diff_divide_distrib)
      show "- (t4 - (0.70 + 0.30 * ((dd - 15) / 45))) \<le> 3 / 2 ^ 24"
        using 4 s4(2-4) x e by (simp add: abs_le_iff diff_divide_distrib)
    qed
  qed
  ultimately show ?thesis using that by blast
qed

lemma clip_lipschitz:
  "\<bar>min (max y lo) hi - min (max z lo) hi\<bar> \<le> \<bar>y - z\<bar>" for y z lo hi :: real
  by (simp add: min_def max_def abs_if)

lemma delay_out_err:
  assumes "0 \<le> dd" "dd \<le> 60"
  shows "\<bar>f32_clip 0 1 (delay_out (Fin dd)) - delay_norm1 (Some (60 * dd))\<bar> \<le> 3 / 2 ^ 24"
proof -
  consider "dd \<le> 5" | "5 < dd" "dd \<le> 15" | "15 < dd" by linarith
  then show ?thesis
  proof cases
    case 1
    from bucket1_err [OF assms(1) 1] obtain y
      where y: "bucket1 (Fin dd) = Fin y" "\<bar>y - 0.30 * (dd / 5)\<bar> \<le> 3 / 2 ^ 24" by blast
    have "f32_clip 0 1 (delay_out (Fin dd)) = min (max y 0) 1"
      using 1 y(1) by (simp add: delay_out_def f32_clip_def)
    moreover have "delay_norm1 (Some (60 * dd)) = min (max (0.30 * (dd / 5)) 0) 1"
      using 1 by (simp add: delay_norm1_def fillna_def clip_def)
    ultimately have "\<bar>f32_clip 0 1 (delay_out (Fin dd)) - delay_norm1 (Some (60 * dd))\<bar>
        = \<bar>min (max y 0) 1 - min (max (0.30 * (dd / 5)) 0) 1\<bar>" by (simp only:)
    also have "\<dots> \<le> \<bar>y - (0.30 * (dd / 5))\<bar>" by (rule clip_lipschitz)
    also have "\<dots> \<le> 3 / 2 ^ 24" by (rule y(2))
    finally show ?thesis .
  next
    case 2
    have "5 \<le> dd" using 2(1) by simp
    from bucket2_err [OF this 2(2)] obtain y
      where y: "bucket2 (Fin dd) = Fin y"
        "\<bar>y - (0.30 + 0.40 * ((dd - 5) / 10))\<bar> \<le> 3 / 2 ^ 24" by blast
    have "f32_clip 0 1 (delay_out (Fin dd)) = min (max y 0) 1"
      using 2 y(1) by (simp add: delay_out_def f32_clip_def)
    moreover have "delay_norm1 (Some (60 * dd))
        = min (max (0.30 + 0.40 * ((dd - 5) / 10)) 0) 1"
      using 2 by (simp add: delay_norm1_def fillna_def clip_def)
    ultimately have "\<bar>f32_clip 0 1 (delay_out (Fin dd)) - delay_norm1 (Some (60 * dd))\<bar>
        = \<bar>min (max y 0) 1 - min (max (0.30 + 0.40 * ((dd - 5) / 10)) 0) 1\<bar>" by (simp only:)
    also have "\<dots> \<le> \<bar>y - (0.30 + 0.40 * ((dd - 5) / 10))\<bar>" by (rule clip_lipschitz)
    also have "\<dots> \<le> 3 / 2 ^ 24" by (rule y(2))
    finally show ?thesis .
  next
    case 3
    have "15 \<le> dd" using 3 by simp
    from bucket3_err [OF this assms(2)] obtain y
      where y: "bucket3 (Fin dd) = Fin y"
        "\<bar>y - (0.70 + 0.30 * (min (dd - 15) 45 / 45))\<bar> \<le> 3 / 2 ^ 24" by blast
    have "f32_clip 0 1 (delay_out (Fin dd)) = min (max y 0) 1"
      using 3 y(1) by (simp add: delay_out_def f32_clip_def)
    moreover have "delay_norm1 (Some (60 * dd))
        = min (max (0.70 + 0.30 * (min (dd - 15) 45 / 45)) 0) 1"
      using 3 by (simp add: delay_norm1_def fillna_def clip_def)
    ultimately have "\<bar>f32_clip 0 1 (delay_out (Fin dd)) - delay_norm1 (Some (60 * dd))\<bar>
        = \<bar>min (max y 0) 1 - min (max (0.70 + 0.30 * (min (dd - 15) 45 / 45)) 0) 1\<bar>" by (simp only:)
    also have "\<dots> \<le> \<bar>y - (0.70 + 0.30 * (min (dd - 15) 45 / 45))\<bar>" by (rule clip_lipschitz)
    also have "\<dots> \<le> 3 / 2 ^ 24" by (rule y(2))
    finally show ?thesis .
  qed
qed

lemma delay_norm_f32_0: "delay_norm_f32 (Some 0) = 0"
  by (simp add: delay_norm_f32_eval)

lemma delay_norm_f32_close_Some:
  "\<bar>delay_norm_f32 (Some s) - delay_norm1 (Some s)\<bar> \<le> 1 / 10 ^ 6"
proof -
  consider "s < 0" | "3600 < s" | "0 \<le> s" "s \<le> 3600" by linarith
  then show ?thesis
  proof cases
    case 1
    have "delay_norm_f32 (Some s) \<le> delay_norm_f32 (Some 0)"
      using 1 by (intro delay_norm_f32_mono_low) simp_all
    then have "delay_norm_f32 (Some s) = 0"
      using delay_norm_f32_range [of "Some s"] by (simp add: delay_norm_f32_0)
    moreover have "delay_norm1 (Some s) = 0"
      using 1 by (simp add: delay_norm1_def fillna_def clip_def max_def)
    ultimately show ?thesis by simp
  next
    case 2
    have "delay_norm_f32 (Some 3600) \<le> delay_norm_f32 (Some s)"
      using 2 by (intro delay_norm_f32_mono_high) simp_all
    then have "delay_norm_f32 (Some s) = 1"
      using delay_norm_f32_range [of "Some s"] by (simp add: delay_norm_f32_3600)
    moreover have "delay_norm1 (Some s) = 1"
      using 2 by (simp add: delay_norm1_def fillna_def clip_def)
    ultimately show ?thesis by simp
  next
    case 3
    from minutes_f32_finite [OF 3] obtain dd
      where dd: "minutes_f32 (Some s) = Fin dd" "0 \<le> dd" "dd \<le> 60"
        "\<bar>60 * dd - s\<bar> \<le> 7200 / 2 ^ 24 + 61 / 2 ^ 150" by blast
    have "\<bar>delay_norm_f32 (Some s) - delay_norm1 (Some (60 * dd))\<bar> \<le> 3 / 2 ^ 24"
      using delay_out_err [OF dd(2,3)] by (simp add: delay_norm_f32_out dd(1))
    moreover have "\<bar>delay_norm1 (Some (60 * dd)) - delay_norm1 (Some s)\<bar>
        \<le> (7200 / 2 ^ 24 + 61 / 2 ^ 150) / 1000"
      using delay_norm1_lipschitz [of "60 * dd" s] dd(4) by simp
    moreover have "3 / 2 ^ 24 + (7200 / 2 ^ 24 + 61 / 2 ^ 150) / 1000 \<le> (1 :: real) / 10 ^ 6"
      by simp
    ultimately show ?thesis by linarith
  qed
qed

lemma delay_norm_f32_close: "\<bar>delay_norm_f32 x - delay_norm1 x\<bar> \<le> 1 / 10 ^ 6"
proof (cases x)
  case None
  have "delay_norm_f32 None = delay_norm_f32 (Some 0)"
    by (simp add: delay_norm_f32_def minutes_f32_def fillna_def)
  moreover have "delay_norm1 None = delay_norm1 (Some 0)"
    by (simp add: delay_norm1_def fillna_def)
  ultimately show ?thesis using delay_norm_f32_close_Some [of 0] None by simp
next
  case (Some s)
  then show ?thesis using delay_norm_f32_close_Some [of s] by simp
qed

text \<open>
  C2, as the specification states it: \<open>delay_norm\<close> is non-decreasing in the delay and is
  0.70 at 15 minutes.  In float32 the second formula gives \<open>11744052 / 2 ^ 24\<close>, that is
  0.7000000476837158, at a delay of 900 s, and the third formula gives
  \<open>11744051 / 2 ^ 24\<close>, that is 0.699999988079071, at a delay of 900.0001 s (which the cast
  makes 900.0001220703125 s, and the division 15.0000019073486328125 minutes): the
  larger delay has the smaller \<open>delay_norm\<close>, and neither value is the 0.70 of the exact
  curve.
\<close>

theorem C2_float32_seam_counterexample:
  "(900 :: real) \<le> 900.0001
   \<and> delay_norm_f32 (Some 900) = 11744052 / 2 ^ 24
   \<and> delay_norm_f32 (Some 900.0001) = 11744051 / 2 ^ 24
   \<and> delay_norm_f32 (Some 900.0001) < delay_norm_f32 (Some 900)
   \<and> delay_norm_f32 (Some 900) \<noteq> 0.70
   \<and> delay_norm_vec [Some 900, Some 900.0001] = [11744052 / 2 ^ 24, 11744051 / 2 ^ 24]"
  using delay_norm_f32_900 delay_norm_f32_just_above_900
  by (simp add: delay_norm_vec_def)

text \<open>
  C2, amended: for every input delay, null, negative or huge alike, \<open>delay_norm\<close> is the
  piecewise curve on the minutes \<open>d\<close> evaluated in float32 (a null delay is scored as a
  delay of 0), and so agrees to within \<open>10 ^ (- 6)\<close> with \<open>0.30 d / 5\<close> on [0, 5], with
  \<open>0.30 + 0.40 (d - 5) / 10\<close> on (5, 15] and with \<open>0.70 + 0.30 min (d - 15) 45 / 45\<close> above
  15.  It is non-decreasing among the delays of at most 900 s and among the delays of at
  least 900.0001 s; between a delay below and a delay above the 15-minute seam it can
  fall, by at most \<open>1 / 2 ^ 24\<close> (about \<open>6 * 10 ^ (- 8)\<close>).  Its value at 5 minutes is the
  float32 number nearest to 0.30 and its value at 15 minutes is \<open>11744052 / 2 ^ 24\<close>, each
  within \<open>10 ^ (- 7)\<close> of 0.30 and 0.70, and its value at 60 minutes is 1.00.  Every output
  lies in [0, 1].
\<close>

theorem C2_delay_curve_float32:
  "delay_norm_f32 None = delay_norm_f32 (Some 0)
   \<and> (0 \<le> s / 60 \<and> s / 60 \<le> 5
        \<longrightarrow> \<bar>delay_norm_f32 (Some s) - 0.30 * (s / 60) / 5\<bar> \<le> 1 / 10 ^ 6)
   \<and> (5 < s / 60 \<and> s / 60 \<le> 15
        \<longrightarrow> \<bar>delay_norm_f32 (Some s) - (0.30 + 0.40 * (s / 60 - 5) / 10)\<bar> \<le> 1 / 10 ^ 6)
   \<and> (15 < s / 60
        \<longrightarrow> \<bar>delay_norm_f32 (Some s) - (0.70 + 0.30 * min (s / 60 - 15) 45 / 45)\<bar>
              \<le> 1 / 10 ^ 6)
   \<and> \<bar>delay_norm_f32 x - delay_norm1 x\<bar> \<le> 1 / 10 ^ 6
   \<and> (s \<le> s' \<and> s' \<le> 900 \<longrightarrow> delay_norm_f32 (Some s) \<le> delay_norm_f32 (Some s'))
   \<and> (s \<le> s' \<and> 900.0001 \<le> s \<longrightarrow> delay_norm_f32 (Some s) \<le> delay_norm_f32 (Some s'))
   \<and> (s \<le> s' \<longrightarrow> delay_norm_f32 (Some s) \<le> delay_norm_f32 (Some s') + 1 / 2 ^ 24)
   \<and> delay_norm_f32 (Some (5 * 60)) = round32 0.30
   \<and> \<bar>delay_norm_f32 (Some (5 * 60)) - 0.30\<bar> < 1 / 10 ^ 7
   \<and> delay_norm_f32 (Some (15 * 60)) = 11744052 / 2 ^ 24
   \<and> \<bar>delay_norm_f32 (Some (15 * 60)) - 0.70\<bar> < 1 / 10 ^ 7
   \<and> delay_norm_f32 (Some (60 * 60)) = 1.00
   \<and> 0 \<le> delay_norm_f32 x \<and> delay_norm_f32 x \<le> 1"
proof -
  have null: "delay_norm_f32 None = delay_norm_f32 (Some 0)"
    by (simp add: delay_norm_f32_def minutes_f32_def fillna_def)
  have exact: "(0 \<le> s / 60 \<and> s / 60 \<le> 5 \<longrightarrow> delay_norm1 (Some s) = 0.30 * (s / 60) / 5)
   \<and> (5 < s / 60 \<and> s / 60 \<le> 15
        \<longrightarrow> delay_norm1 (Some s) = 0.30 + 0.40 * (s / 60 - 5) / 10)
   \<and> (15 < s / 60 \<longrightarrow> delay_norm1 (Some s) = 0.70 + 0.30 * min (s / 60 - 15) 45 / 45)"
    unfolding delay_norm1_def fillna_def clip_def Let_def
    by (auto simp: min_def max_def field_simps)
  have curve: "(0 \<le> s / 60 \<and> s / 60 \<le> 5
        \<longrightarrow> \<bar>delay_norm_f32 (Some s) - 0.30 * (s / 60) / 5\<bar> \<le> 1 / 10 ^ 6)
   \<and> (5 < s / 60 \<and> s / 60 \<le> 15
        \<longrightarrow> \<bar>delay_norm_f32 (Some s) - (0.30 + 0.40 * (s / 60 - 5) / 10)\<bar> \<le> 1 / 10 ^ 6)
   \<and> (15 < s / 60
        \<longrightarrow> \<bar>delay_norm_f32 (Some s) - (0.70 + 0.30 * min (s / 60 - 15) 45 / 45)\<bar>
              \<le> 1 / 10 ^ 6)"
    using exact delay_norm_f32_close_Some [of s] by metis
  have low: "s \<le> s' \<and> s' \<le> 900 \<longrightarrow> delay_norm_f32 (Some s) \<le> delay_norm_f32 (Some s')"
    using delay_norm_f32_mono_low [of s s'] by simp
  have high: "s \<le> s' \<and> 900.0001 \<le> s \<longrightarrow> delay_norm_f32 (Some s) \<le> delay_norm_f32 (Some s')"
    using delay_norm_f32_mono_high [of s s'] by simp
  have seam: "s \<le> s' \<longrightarrow> delay_norm_f32 (Some s) \<le> delay_norm_f32 (Some s') + 1 / 2 ^ 24"
    using delay_norm_f32_mono_seam [of s s'] by simp
  have v5: "delay_norm_f32 (Some (5 * 60)) = round32 0.30"
    unfolding round32_constants using delay_norm_f32_300 by simp
  have v15: "delay_norm_f32 (Some (15 * 60)) = 11744052 / 2 ^ 24"
    using delay_norm_f32_900 by simp
  have v60: "delay_norm_f32 (Some (60 * 60)) = 1.00"
    using delay_norm_f32_3600 by simp
  have c5: "\<bar>delay_norm_f32 (Some (5 * 60)) - 0.30\<bar> < 1 / 10 ^ 7"
    unfolding v5 round32_constants by simp
  have c15: "\<bar>delay_norm_f32 (Some (15 * 60)) - 0.70\<bar> < 1 / 10 ^ 7"
    unfolding v15 by simp
  from null curve delay_norm_f32_close [of x] low high seam v5 c5 v15 c15 v60
    delay_norm_f32_range [of x]
  show ?thesis by blast
qed

theorem C2_delay_curve_float32_witness:
  "\<bar>delay_norm_f32 (Some 120) - 0.12\<bar> \<le> 1 / 10 ^ 6
   \<and> \<bar>delay_norm_f32 (Some 600) - 0.50\<bar> \<le> 1 / 10 ^ 6
   \<and> \<bar>delay_norm_f32 (Some 1800) - 0.80\<bar> \<le> 1 / 10 ^ 6
   \<and> delay_norm_f32 (Some 120) \<le> delay_norm_f32 (Some 600)
   \<and> delay_norm_f32 (Some 1800) \<le> delay_norm_f32 (Some 2400)
   \<and> delay_norm_f32 (Some 600) \<le> delay_norm_f32 (Some 1800) + 1 / 2 ^ 24"
  using C2_delay_curve_float32 [of 120 None 600] C2_delay_curve_float32 [of 600 None 1800]
    C2_delay_curve_float32 [of 1800 None 2400]
  by simp

text \<open>
  C3.  In the table written by \<open>add_speed_norm\<close>, a row with \<open>speed_kph < 5\<close> has
  \<open>speed_norm = 0\<close> whatever the free-flow table holds; a row with \<open>speed_kph \<ge> 5\<close> whose
  (route, direction) has the entry \<open>f\<close> has \<open>speed_norm = 1 - speed_kph / max f 0.001\<close>
  clipped to [0, 1]; a row with \<open>speed_kph \<ge> 5\<close> whose (route, direction) has no entry
  has a null \<open>speed_norm\<close>.
\<close>

theorem C3_speed_norm:
  assumes "i < length df"
  shows "(speed_kph (df ! i) = Some s \<and> s < 5
            \<longrightarrow> speed_norm (add_speed_norm free df ! i) = Some 0)
       \<and> (speed_kph (df ! i) = Some s \<and> s \<ge> 5
            \<and> map_of free (route_id (df ! i), direction_id (df ! i)) = Some f
            \<longrightarrow> speed_norm (add_speed_norm free df ! i)
                  = Some (min 1 (max 0 (1 - s / max f (1 / 1000)))))
       \<and> (speed_kph (df ! i) = Some s \<and> s \<ge> 5
            \<and> map_of free (route_id (df ! i), direction_id (df ! i)) = None
            \<longrightarrow> speed_norm (add_speed_norm free df ! i) = None)"
  using assms
  by (auto simp: add_speed_norm_def row_defs speed_norm1_def merge_free_def nan_ge_def
      nan_map_def clip_def Let_def max.commute)

theorem C3_speed_norm_witness:
  "speed_norm (add_speed_norm [((''46A'', 0), 40)]
      [\<lparr>vehicle_id = ''v1'', trip_id = ''t1'', route_id = ''46A'', direction_id = 0,
        timestamp = 1751364000, lat = Some 53.34, lon = Some (-6.26), speed_kph = Some 3,
        delay_sec = Some 900, zone = centre, rain_mm = Some 0, temp_c = Some 18,
        vanish_anchor = False, delay_norm = 0.70\<rparr>] ! 0) = Some 0
   \<and> speed_norm (add_speed_norm [((''46A'', 0), 40)]
      [\<lparr>vehicle_id = ''v2'', trip_id = ''t2'', route_id = ''46A'', direction_id = 0,
        timestamp = 1751364000, lat = Some 53.34, lon = Some (-6.26), speed_kph = Some 30,
        delay_sec = None, zone = centre, rain_mm = Some 0, temp_c = Some 18,
        vanish_anchor = False, delay_norm = 0\<rparr>] ! 0) = Some 0.25
   \<and> speed_norm (add_speed_norm [((''46A'', 0), 40)]
      [\<lparr>vehicle_id = ''v3'', trip_id = ''t3'', route_id = ''7'', direction_id = 1,
        timestamp = 1751364000, lat = Some 53.34, lon = Some (-6.26), speed_kph = Some 30,
        delay_sec = None, zone = centre, rain_mm = Some 0, temp_c = Some 18,
        vanish_anchor = False, delay_norm = 0\<rparr>] ! 0) = None"
  (is "speed_norm (add_speed_norm ?free ?d1 ! 0) = _
       \<and> speed_norm (add_speed_norm _ ?d2 ! 0) = _ \<and> speed_norm (add_speed_norm _ ?d3 ! 0) = _")
  using C3_speed_norm [of 0 ?d1 3 ?free] C3_speed_norm [of 0 ?d2 30 ?free 40]
    C3_speed_norm [of 0 ?d3 30 ?free]
  by simp


text \<open>
  C7, as the specification states it: a weight configuration whose sum is not 1.00 is
  refused before any row is scored.  The scorer has no such check: run with the weights
  (1, 1, 0, 0, 0, 0), whose sum is 2, it writes the scored table, and the row below gets
  \<open>row_stress = 2\<close>.
\<close>

theorem C7_unchecked_weights_counterexample:
  "weight_sum \<lparr>w_delay = 1, w_speed = 1, w_rain = 0, w_heat = 0, w_cold = 0, w_vanish = 0\<rparr> \<noteq> 1
   \<and> stress_main \<lparr>w_delay = 1, w_speed = 1, w_rain = 0, w_heat = 0, w_cold = 0, w_vanish = 0\<rparr>
        False False
        (Some [\<lparr>vehicle_id = ''v1'', trip_id = ''t1'', route_id = ''46A'', direction_id = 0,
                timestamp = 1751364000, lat = Some 53.34, lon = Some (-6.26),
                speed_kph = Some 5, delay_sec = Some 3600, zone = centre, rain_mm = Some 0,
                temp_c = Some 18, vanish_anchor = False, delay_norm = 1, free_kph = Some 5000,
                speed_norm = Some 1, rain_norm = 0, heat_norm = 0, cold_norm = 0\<rparr>])
     = Wrote [\<lparr>vehicle_id = ''v1'', trip_id = ''t1'', route_id = ''46A'', direction_id = 0,
                timestamp = 1751364000, lat = Some 53.34, lon = Some (-6.26),
                speed_kph = Some 5, delay_sec = Some 3600, zone = centre, rain_mm = Some 0,
                temp_c = Some 18, vanish_anchor = False, delay_norm = 1, free_kph = Some 5000,
                speed_norm = Some 1, rain_norm = 0, heat_norm = 0, cold_norm = 0,
                row_stress = Some 2\<rparr>]"
  by (simp add: weight_sum_def stress_main_def score_table_def row_stress1_def row_defs
      nan_add_def nan_map_def astype_float_def)

text \<open>
  C7, amended: the scorer does not inspect its weights.  Whenever the output is to be
  written and the input table is there, it scores the table under the weights it is
  given; the weights the module ships, \<open>W\<close>, sum to exactly 1.00.
\<close>

theorem C7_shipped_weights_sum_to_one:
  "weight_sum W = 1
   \<and> stress_main w False overwrite (Some df) = Wrote (score_table w df)
   \<and> stress_main w out_exists True (Some df) = Wrote (score_table w df)"
  by (simp add: weight_sum_def W_def stress_main_def)

text \<open>
  C10.  A row with \<open>speed_kph \<ge> 5\<close> whose (route, direction) is not in the free-flow
  table goes through the whole chain: the scored table has as many rows as the input,
  the row is still there with its input columns unchanged, and both its \<open>speed_norm\<close> and
  its \<open>row_stress\<close> are null.
\<close>

theorem C10_null_speed_norm_propagates:
  assumes "i < length df" and "speed_kph (df ! i) = Some s" and "s \<ge> 5"
    and "map_of free (route_id (df ! i), direction_id (df ! i)) = None"
  shows "length (pipeline free df) = length df
       \<and> veh_minute_w_vanished.truncate (pipeline free df ! i) = df ! i
       \<and> speed_norm (pipeline free df ! i) = None
       \<and> row_stress (pipeline free df ! i) = None"
  using assms
  by (simp add: pipeline_def score_table_def add_weather_norm_def add_speed_norm_def
      add_delay_norm_def row_defs row_stress1_def speed_norm1_def merge_free_def nan_ge_def
      nan_map_def nan_add_def Let_def)

theorem C10_null_speed_norm_propagates_witness:
  "length (pipeline [((''46A'', 0), 40)]
      [\<lparr>vehicle_id = ''v3'', trip_id = ''t3'', route_id = ''7'', direction_id = 1,
        timestamp = 1751364000, lat = Some 53.34, lon = Some (-6.26), speed_kph = Some 30,
        delay_sec = Some 900, zone = centre, rain_mm = Some 0, temp_c = Some 18,
        vanish_anchor = False\<rparr>]) = 1
   \<and> row_stress (pipeline [((''46A'', 0), 40)]
      [\<lparr>vehicle_id = ''v3'', trip_id = ''t3'', route_id = ''7'', direction_id = 1,
        timestamp = 1751364000, lat = Some 53.34, lon = Some (-6.26), speed_kph = Some 30,
        delay_sec = Some 900, zone = centre, rain_mm = Some 0, temp_c = Some 18,
        vanish_anchor = False\<rparr>] ! 0) = None"
  (is "length (pipeline ?free ?df) = _ \<and> _")
  using C10_null_speed_norm_propagates [of 0 ?df 30 ?free]
  by simp

section \<open>Properties of the free-flow table\<close>

lemma quantile_index:
  assumes "0 \<le> q" "q \<le> 1" "0 < n" and h: "h = q * real (n - 1)" and i: "i = nat \<lfloor>h\<rfloor>"
  shows "i < n" and "h - real i \<noteq> 0 \<Longrightarrow> i + 1 < n" and "0 \<le> h - real i" and "h - real i < 1"
    and "h - real i \<noteq> 0 \<Longrightarrow> nat \<lceil>h\<rceil> = i + 1" and "h - real i = 0 \<Longrightarrow> nat \<lceil>h\<rceil> = i"
proof -
  have h0: "0 \<le> h" using assms by simp
  have h1: "h \<le> real (n - 1)" unfolding h using assms(1,2) by (simp add: mult_left_le_one_le)
  have fl: "real i = of_int \<lfloor>h\<rfloor>" using h0 i by simp
  have le: "of_int \<lfloor>h\<rfloor> \<le> h" by (rule of_int_floor_le)
  have "real i \<le> real (n - 1)" using fl le h1 by linarith
  then have "i \<le> n - 1" by (simp only: of_nat_le_iff)
  then show "i < n" using assms(3) by arith
  show "0 \<le> h - real i" using fl le by simp
  show "h - real i < 1" using fl by linarith
  show "i + 1 < n" if ne: "h - real i \<noteq> 0"
  proof -
    have "real i < h" using ne fl le by linarith
    then have "real i < real (n - 1)" using h1 by linarith
    then have "i < n - 1" by (simp only: of_nat_less_iff)
    then show ?thesis by arith
  qed
  show "nat \<lceil>h\<rceil> = i + 1" if ne: "h - real i \<noteq> 0"
  proof -
    have "h \<noteq> of_int \<lfloor>h\<rfloor>" using ne fl by linarith
    then have "\<lceil>h\<rceil> = \<lfloor>h\<rfloor> + 1" by (metis ceiling_altdef of_int_floor_cancel)
    moreover have "0 \<le> \<lfloor>h\<rfloor>" using h0 by simp
    ultimately show ?thesis using i by (simp add: nat_add_distrib)
  qed
  show "nat \<lceil>h\<rceil> = i" if "h - real i = 0"
  proof -
    have "h = of_int \<lfloor>h\<rfloor>" using that fl by linarith
    then have "\<lceil>h\<rceil> = \<lfloor>h\<rfloor>" by (metis ceiling_of_int)
    then show ?thesis using i by simp
  qed
qed

lemma quantile_unfold:
  assumes "vals \<noteq> []" "0 \<le> q" "q \<le> 1"
    and "xs = sort vals" and "h = q * real (length vals - 1)" and "i = nat \<lfloor>h\<rfloor>"
  shows "quantile q vals
           = Some (if h - real i = 0 then xs ! i else xs ! i + (xs ! (i + 1) - xs ! i) * (h - real i))"
proof -
  have "length (sort vals) \<noteq> 0" using assms(1) by simp
  then have "sort vals \<noteq> []" by (simp only: length_0_conv not_False_eq_True)
  then show ?thesis using assms by (simp add: quantile_def Let_def)
qed

lemma quantile_lower_bound:
  assumes "quantile q vals = Some f" and "\<forall>x\<in>set vals. c \<le> x"
  shows "c \<le> f"
proof -
  define xs where "xs = sort vals"
  define n where "n = length vals"
  define h where "h = q * real (n - 1)"
  define i where "i = nat \<lfloor>h\<rfloor>"
  define fr where "fr = h - real i"
  from assms(1) have ne: "vals \<noteq> []" and q: "0 \<le> q" "q \<le> 1"
    by (auto simp: quantile_def Let_def split: if_splits)
  then have n: "0 < n" by (simp add: n_def)
  have all: "c \<le> xs ! j" if "j < n" for j
  proof -
    have "j < length xs" using that by (simp add: xs_def n_def)
    then have "xs ! j \<in> set xs" by (rule nth_mem)
    then have "xs ! j \<in> set vals" by (simp add: xs_def)
    then show ?thesis using assms(2) by blast
  qed
  note ix = quantile_index [OF q n h_def i_def]
  have f: "f = (if fr = 0 then xs ! i else xs ! i + (xs ! (i + 1) - xs ! i) * fr)"
    using quantile_unfold [OF ne q xs_def h_def [unfolded n_def] i_def] assms(1)
    by (simp add: fr_def)
  show ?thesis
  proof (cases "fr = 0")
    case True
    with f all [OF ix(1)] show ?thesis by simp
  next
    case False
    then have f': "f = xs ! i + (xs ! (i + 1) - xs ! i) * fr" using f by simp
    have a: "c \<le> xs ! i" by (rule all [OF ix(1)])
    have b: "c \<le> xs ! (i + 1)" using False by (intro all ix(2)) (simp add: fr_def)
    have fr01: "0 \<le> fr" "fr < 1" using ix(3,4) by (simp_all add: fr_def)
    have "f = (1 - fr) * xs ! i + fr * xs ! (i + 1)" unfolding f' by (simp add: algebra_simps)
    moreover have "(1 - fr) * c \<le> (1 - fr) * xs ! i"
      using a fr01 by (intro mult_left_mono) auto
    moreover have "fr * c \<le> fr * xs ! (i + 1)"
      using b fr01 by (intro mult_left_mono) auto
    moreover have "(1 - fr) * c + fr * c = c" by (simp add: algebra_simps)
    ultimately show ?thesis by linarith
  qed
qed

lemma quantile_is_percentile:
  assumes "vals \<noteq> []" "0 \<le> q" "q \<le> 1"
  shows "quantile q vals = Some (percentile_spec q vals)"
proof -
  define xs where "xs = sort vals"
  define n where "n = length vals"
  define h where "h = q * real (n - 1)"
  define i where "i = nat \<lfloor>h\<rfloor>"
  have n: "0 < n" using assms(1) by (simp add: n_def)
  note ix = quantile_index [OF assms(2,3) n h_def i_def]
  have p: "percentile_spec q vals = xs ! i + (h - real i) * (xs ! nat \<lceil>h\<rceil> - xs ! i)"
    by (simp add: percentile_spec_def Let_def xs_def h_def n_def i_def)
  have u: "quantile q vals
           = Some (if h - real i = 0 then xs ! i else xs ! i + (xs ! (i + 1) - xs ! i) * (h - real i))"
    by (rule quantile_unfold [OF assms xs_def h_def [unfolded n_def] i_def])
  show ?thesis
  proof (cases "h - real i = 0")
    case True
    then show ?thesis unfolding u p by simp
  next
    case False
    then show ?thesis unfolding u p using ix(5) by (simp add: algebra_simps)
  qed
qed

lemma map_of_map_filter_keys:
  "map_of (List.map_filter (\<lambda>k. map_option (Pair k) (g k)) keys) k
     = (if k \<in> set keys then g k else None)"
  by (induction keys) (auto simp: List.map_filter_simps split: option.splits)

lemma fst_map_filter_keys:
  "distinct keys \<Longrightarrow> distinct (map fst (List.map_filter (\<lambda>k. map_option (Pair k) (g k)) keys))"
proof (induction keys)
  case Nil
  then show ?case by (simp add: List.map_filter_simps)
next
  case (Cons a keys)
  have "fst ` set (List.map_filter (\<lambda>k. map_option (Pair k) (g k)) keys) \<subseteq> set keys"
    by (auto simp: List.map_filter_def)
  with Cons show ?case
    by (auto simp: List.map_filter_simps split: option.splits)
qed

lemma group_speeds:
  "List.map_filter speed_kph (filter (\<lambda>r. group_key r = k) (filter (\<lambda>r. nan_ge (speed_kph r) 10) df))
     = filter (\<lambda>s. 10 \<le> s) (List.map_filter speed_kph (filter (\<lambda>r. group_key r = k) df))"
  by (induction df) (auto simp: List.map_filter_simps nan_ge_def split: option.splits)


text \<open>
  C8.  The entry of a (route, direction) group in the free-flow table is the 95th
  percentile of the group's speeds that are at least 10 km/h; a group has an entry exactly
  when it has such a sample; the table has one row per group; and every \<open>free_kph\<close> in it
  is at least 10, hence strictly positive.
\<close>

theorem C8_freeflow:
  "(map_of (freeflow df) (r, d) = Some f \<longrightarrow>
      f = percentile_spec 0.95
            (filter (\<lambda>s. 10 \<le> s)
               (List.map_filter speed_kph (filter (\<lambda>x. route_id x = r \<and> direction_id x = d) df)))
      \<and> 10 \<le> f \<and> 0 < f)
   \<and> (map_of (freeflow df) (r, d) \<noteq> None
        \<longleftrightarrow> (\<exists>x\<in>set df. route_id x = r \<and> direction_id x = d \<and> nan_ge (speed_kph x) 10))
   \<and> distinct (map fst (freeflow df))
   \<and> (\<forall>e\<in>set (freeflow df). 10 \<le> snd e)"
proof -
  define mv where "mv = filter (\<lambda>x. nan_ge (speed_kph x) 10) df"
  define keys where "keys = sort (remdups (map group_key mv))"
  define g where "g = (\<lambda>k. quantile 0.95 (List.map_filter speed_kph (filter (\<lambda>x. group_key x = k) mv)))"
  define vals where "vals = filter (\<lambda>s. 10 \<le> s)
               (List.map_filter speed_kph (filter (\<lambda>x. route_id x = r \<and> direction_id x = d) df))"
  have ff: "freeflow df = List.map_filter (\<lambda>k. map_option (Pair k) (g k)) keys"
    by (simp add: freeflow_def Let_def mv_def keys_def g_def)
  have gk: "(\<lambda>x. group_key x = (r, d)) = (\<lambda>x. route_id x = r \<and> direction_id x = d)"
    by (auto simp: group_key_def)
  have grd: "g (r, d) = quantile 0.95 vals"
    unfolding g_def mv_def group_speeds vals_def gk ..
  have look: "map_of (freeflow df) k = (if k \<in> set keys then g k else None)" for k
    unfolding ff by (rule map_of_map_filter_keys)
  have inkeys: "(r, d) \<in> set keys
       \<longleftrightarrow> (\<exists>x\<in>set df. route_id x = r \<and> direction_id x = d \<and> nan_ge (speed_kph x) 10)"
    by (auto simp: keys_def mv_def group_key_def)
  have nonempty: "vals \<noteq> []" if "(r, d) \<in> set keys"
  proof -
    from that inkeys obtain x where x: "x \<in> set df" "route_id x = r" "direction_id x = d"
      "nan_ge (speed_kph x) 10" by blast
    then obtain s where s: "speed_kph x = Some s" "10 \<le> s"
      by (auto simp: nan_ge_def split: option.splits)
    have "s \<in> set vals"
      using x s by (auto simp: vals_def List.map_filter_def intro!: image_eqI [where x = x])
    then show ?thesis by auto
  qed
  have all10: "\<forall>s\<in>set vals. 10 \<le> s" by (simp add: vals_def)
  have c1: "map_of (freeflow df) (r, d) = Some f \<longrightarrow>
      f = percentile_spec 0.95 vals \<and> 10 \<le> f \<and> 0 < f"
  proof
    assume a: "map_of (freeflow df) (r, d) = Some f"
    then have k: "(r, d) \<in> set keys" and q: "quantile 0.95 vals = Some f"
      by (auto simp: look grd split: if_splits)
    have "quantile 0.95 vals = Some (percentile_spec 0.95 vals)"
      by (rule quantile_is_percentile [OF nonempty [OF k]]) simp_all
    with q have "f = percentile_spec 0.95 vals" by simp
    moreover have "10 \<le> f" by (rule quantile_lower_bound [OF q all10])
    ultimately show "f = percentile_spec 0.95 vals \<and> 10 \<le> f \<and> 0 < f" by simp
  qed
  have c2: "map_of (freeflow df) (r, d) \<noteq> None \<longleftrightarrow> (r, d) \<in> set keys"
  proof -
    have "quantile 0.95 vals \<noteq> None" if "(r, d) \<in> set keys"
      using quantile_is_percentile [OF nonempty [OF that], of "0.95"] by simp
    then show ?thesis by (auto simp: look grd)
  qed
  have c3: "distinct (map fst (freeflow df))"
    unfolding ff by (rule fst_map_filter_keys) (simp add: keys_def)
  have c4: "\<forall>e\<in>set (freeflow df). 10 \<le> snd e"
  proof
    fix e assume e: "e \<in> set (freeflow df)"
    obtain k v where kv: "e = (k, v)" by (cases e)
    from e have "k \<in> set keys" "g k = Some v"
      by (auto simp: ff kv List.map_filter_def)
    then have "quantile 0.95 (List.map_filter speed_kph (filter (\<lambda>x. group_key x = k) mv)) = Some v"
      by (simp add: g_def)
    moreover have "\<forall>s\<in>set (List.map_filter speed_kph (filter (\<lambda>x. group_key x = k) mv)). 10 \<le> s"
      unfolding mv_def group_speeds by simp
    ultimately have "10 \<le> v" by (rule quantile_lower_bound)
    then show "10 \<le> snd e" by (simp add: kv)
  qed
  from c1 c2 c3 c4 show ?thesis unfolding vals_def inkeys by blast
qed

theorem C8_freeflow_witness:
  "map_of (freeflow
      [\<lparr>vehicle_id = ''v1'', trip_id = ''t1'', route_id = ''46A'', direction_id = 0,
        timestamp = 1751364000, lat = Some 53.34, lon = Some (-6.26), speed_kph = Some 20,
        delay_sec = None, zone = centre, rain_mm = Some 0, temp_c = Some 18,
        vanish_anchor = False, delay_norm = 0\<rparr>,
       \<lparr>vehicle_id = ''v1'', trip_id = ''t1'', route_id = ''46A'', direction_id = 0,
        timestamp = 1751364060, lat = Some 53.34, lon = Some (-6.26), speed_kph = Some 4,
        delay_sec = None, zone = centre, rain_mm = Some 0, temp_c = Some 18,
        vanish_anchor = False, delay_norm = 0\<rparr>,
       \<lparr>vehicle_id = ''v1'', trip_id = ''t1'', route_id = ''46A'', direction_id = 0,
        timestamp = 1751364120, lat = Some 53.34, lon = Some (-6.26), speed_kph = Some 40,
        delay_sec = None, zone = centre, rain_mm = Some 0, temp_c = Some 18,
        vanish_anchor = False, delay_norm = 0\<rparr>]) (''46A'', 0) = Some 39
   \<and> percentile_spec 0.95 [20, 40] = 39"
  (is "map_of (freeflow ?df) _ = _ \<and> _")
proof -
  have hyp: "map_of (freeflow ?df) (''46A'', 0) = Some 39"
    by (simp add: freeflow_def Let_def nan_ge_def group_key_def List.map_filter_simps
        quantile_def)
  have "39 = percentile_spec 0.95
            (filter (\<lambda>s. 10 \<le> s)
               (List.map_filter speed_kph
                  (filter (\<lambda>x. route_id x = ''46A'' \<and> direction_id x = 0) ?df)))"
    using C8_freeflow [of ?df "''46A''" 0 39] hyp by blast
  then have "percentile_spec 0.95 [20, 40] = 39"
    by (simp add: List.map_filter_simps)
  with hyp show ?thesis by blast
qed

section \<open>Properties of the temporal join\<close>

lemma sorted_le_last:
  "sorted xs \<Longrightarrow> x \<in> set xs \<Longrightarrow> x \<le> last xs"
  by (induction xs) auto

lemma sorted_hd_le:
  "sorted xs \<Longrightarrow> x \<in> set xs \<Longrightarrow> hd xs \<le> x"
  by (cases xs) auto

lemma last_filter_le:
  assumes "sorted (map key xs)" and "filter (\<lambda>w. key w \<le> t) xs \<noteq> []"
  shows "last (filter (\<lambda>w. key w \<le> t) xs) \<in> set xs"
    and "key (last (filter (\<lambda>w. key w \<le> t) xs)) \<le> t"
    and "\<forall>y\<in>set xs. key y \<le> t \<longrightarrow> key y \<le> key (last (filter (\<lambda>w. key w \<le> t) xs))"
proof -
  let ?cs = "filter (\<lambda>w. key w \<le> t) xs"
  have m: "last ?cs \<in> set ?cs" using assms(2) by (rule last_in_set)
  then show "last ?cs \<in> set xs" "key (last ?cs) \<le> t" by auto
  have s: "sorted (map key ?cs)" using assms(1) by (rule sorted_filter)
  show "\<forall>y\<in>set xs. key y \<le> t \<longrightarrow> key y \<le> key (last ?cs)"
  proof (intro ballI impI)
    fix y assume "y \<in> set xs" "key y \<le> t"
    then have "key y \<in> set (map key ?cs)" by auto
    with s have "key y \<le> last (map key ?cs)" by (rule sorted_le_last)
    then show "key y \<le> key (last ?cs)" using assms(2) by (simp add: last_map)
  qed
qed

lemma hd_filter_ge:
  assumes "sorted (map key xs)" and "filter (\<lambda>w. key w \<ge> t) xs \<noteq> []"
  shows "hd (filter (\<lambda>w. key w \<ge> t) xs) \<in> set xs"
    and "key (hd (filter (\<lambda>w. key w \<ge> t) xs)) \<ge> t"
    and "\<forall>y\<in>set xs. key y \<ge> t \<longrightarrow> key (hd (filter (\<lambda>w. key w \<ge> t) xs)) \<le> key y"
proof -
  let ?cs = "filter (\<lambda>w. key w \<ge> t) xs"
  have m: "hd ?cs \<in> set ?cs" using assms(2) by (rule hd_in_set)
  then show "hd ?cs \<in> set xs" "key (hd ?cs) \<ge> t" by auto
  have s: "sorted (map key ?cs)" using assms(1) by (rule sorted_filter)
  show "\<forall>y\<in>set xs. key y \<ge> t \<longrightarrow> key (hd ?cs) \<le> key y"
  proof (intro ballI impI)
    fix y assume "y \<in> set xs" "key y \<ge> t"
    then have "key y \<in> set (map key ?cs)" by auto
    with s have "hd (map key ?cs) \<le> key y" by (rule sorted_hd_le)
    then show "key (hd ?cs) \<le> key y" using assms(2) by (simp add: hd_map)
  qed
qed


lemma asof_nearest_None:
  assumes "sorted (map key xs)" and "asof_nearest tol key t xs = None"
  shows "\<forall>y\<in>set xs. tol < \<bar>key y - t\<bar>"
proof
  fix y assume y: "y \<in> set xs"
  let ?B = "filter (\<lambda>w. key w \<le> t) xs"
  let ?F = "filter (\<lambda>w. key w \<ge> t) xs"
  from assms(2) have b: "asof_backward tol key t xs = None" and f: "asof_forward tol key t xs = None"
    by (auto simp: asof_nearest_def split: option.splits if_splits)
  show "tol < \<bar>key y - t\<bar>"
  proof (cases "key y \<le> t")
    case True
    then have ne: "?B \<noteq> []" using y by (auto simp: filter_empty_conv)
    with b have "tol < t - key (last ?B)"
      by (simp add: asof_backward_def Let_def split: if_splits)
    moreover have "key y \<le> key (last ?B)"
      using last_filter_le(3) [OF assms(1) ne] y True by blast
    ultimately show ?thesis using True by linarith
  next
    case False
    then have ge: "key y \<ge> t" by simp
    then have ne: "?F \<noteq> []" using y by (auto simp: filter_empty_conv)
    with f have "tol < key (hd ?F) - t"
      by (simp add: asof_forward_def Let_def split: if_splits)
    moreover have "key (hd ?F) \<le> key y"
      using hd_filter_ge(3) [OF assms(1) ne] y ge by blast
    ultimately show ?thesis using ge by linarith
  qed
qed

lemma asof_backward_Some:
  assumes "sorted (map key xs)" and "asof_backward tol key t xs = Some b"
  shows "b \<in> set xs" and "key b \<le> t" and "t - key b \<le> tol"
    and "\<forall>y\<in>set xs. key y \<le> t \<longrightarrow> key y \<le> key b"
proof -
  let ?B = "filter (\<lambda>w. key w \<le> t) xs"
  from assms(2) have ne: "?B \<noteq> []" and b: "b = last ?B" and tol: "t - key b \<le> tol"
    by (auto simp: asof_backward_def Let_def split: if_splits)
  show "b \<in> set xs" "key b \<le> t" "\<forall>y\<in>set xs. key y \<le> t \<longrightarrow> key y \<le> key b"
    unfolding b using last_filter_le [OF assms(1) ne] by blast+
  show "t - key b \<le> tol" by (rule tol)
qed

lemma asof_forward_Some:
  assumes "sorted (map key xs)" and "asof_forward tol key t xs = Some f"
  shows "f \<in> set xs" and "t \<le> key f" and "key f - t \<le> tol"
    and "\<forall>y\<in>set xs. t \<le> key y \<longrightarrow> key f \<le> key y"
proof -
  let ?F = "filter (\<lambda>w. key w \<ge> t) xs"
  from assms(2) have ne: "?F \<noteq> []" and f: "f = hd ?F" and tol: "key f - t \<le> tol"
    by (auto simp: asof_forward_def Let_def split: if_splits)
  show "f \<in> set xs" "t \<le> key f" "\<forall>y\<in>set xs. t \<le> key y \<longrightarrow> key f \<le> key y"
    unfolding f using hd_filter_ge [OF assms(1) ne] by blast+
  show "key f - t \<le> tol" by (rule tol)
qed

lemma asof_backward_None:
  assumes "sorted (map key xs)" and "asof_backward tol key t xs = None"
  shows "\<forall>y\<in>set xs. key y \<le> t \<longrightarrow> tol < t - key y"
proof (intro ballI impI)
  fix y assume y: "y \<in> set xs" "key y \<le> t"
  let ?B = "filter (\<lambda>w. key w \<le> t) xs"
  have ne: "?B \<noteq> []" using y by (auto simp: filter_empty_conv)
  with assms(2) have "tol < t - key (last ?B)"
    by (simp add: asof_backward_def Let_def split: if_splits)
  moreover have "key y \<le> key (last ?B)"
    using last_filter_le(3) [OF assms(1) ne] y by blast
  ultimately show "tol < t - key y" by linarith
qed

lemma asof_forward_None:
  assumes "sorted (map key xs)" and "asof_forward tol key t xs = None"
  shows "\<forall>y\<in>set xs. t \<le> key y \<longrightarrow> tol < key y - t"
proof (intro ballI impI)
  fix y assume y: "y \<in> set xs" "t \<le> key y"
  let ?F = "filter (\<lambda>w. key w \<ge> t) xs"
  have ne: "?F \<noteq> []" using y by (auto simp: filter_empty_conv)
  with assms(2) have "tol < key (hd ?F) - t"
    by (simp add: asof_forward_def Let_def split: if_splits)
  moreover have "key (hd ?F) \<le> key y"
    using hd_filter_ge(3) [OF assms(1) ne] y by blast
  ultimately show "tol < key y - t" by linarith
qed

lemma asof_nearest_Some:
  assumes srt: "sorted (map key xs)" and res: "asof_nearest tol key t xs = Some x"
  shows "x \<in> set xs" and "\<bar>key x - t\<bar> \<le> tol" and "\<forall>y\<in>set xs. \<bar>key x - t\<bar> \<le> \<bar>key y - t\<bar>"
proof -
  have "(\<exists>b f. asof_backward tol key t xs = Some b \<and> asof_forward tol key t xs = Some f
            \<and> x = (if t - key b \<le> key f - t then b else f))
        \<or> (asof_backward tol key t xs = Some x \<and> asof_forward tol key t xs = None)
        \<or> (asof_backward tol key t xs = None \<and> asof_forward tol key t xs = Some x)"
    using res
    by (cases "asof_backward tol key t xs"; cases "asof_forward tol key t xs")
       (auto simp: asof_nearest_def split: if_splits)
  then consider
    (bf) b f where "asof_backward tol key t xs = Some b" "asof_forward tol key t xs = Some f"
      "x = (if t - key b \<le> key f - t then b else f)"
  | (b) "asof_backward tol key t xs = Some x" "asof_forward tol key t xs = None"
  | (f) "asof_backward tol key t xs = None" "asof_forward tol key t xs = Some x"
    by (elim disjE exE conjE) blast+
  then have "x \<in> set xs \<and> \<bar>key x - t\<bar> \<le> tol \<and> (\<forall>y\<in>set xs. \<bar>key x - t\<bar> \<le> \<bar>key y - t\<bar>)"
  proof cases
    case bf
    note B = asof_backward_Some [OF srt bf(1)]
    note F = asof_forward_Some [OF srt bf(2)]
    have "\<bar>key x - t\<bar> \<le> \<bar>key y - t\<bar>" if "y \<in> set xs" for y
    proof (cases "key y \<le> t")
      case True
      then have "key y \<le> key b" using B(4) that by blast
      then show ?thesis using bf(3) B(2) F(2) True by (auto split: if_splits)
    next
      case False
      then have "key f \<le> key y" using F(4) that by force
      then show ?thesis using bf(3) B(2) F(2) False by (auto split: if_splits)
    qed
    moreover have "x \<in> set xs" using bf(3) B(1) F(1) by simp
    moreover have "\<bar>key x - t\<bar> \<le> tol" using bf(3) B(2,3) F(2,3) by (auto split: if_splits)
    ultimately show ?thesis by blast
  next
    case b
    note B = asof_backward_Some [OF srt b(1)]
    note F = asof_forward_None [OF srt b(2)]
    have "\<bar>key x - t\<bar> \<le> \<bar>key y - t\<bar>" if "y \<in> set xs" for y
    proof (cases "key y \<le> t")
      case True
      then have "key y \<le> key x" using B(4) that by blast
      then show ?thesis using B(2) True by linarith
    next
      case False
      then have "tol < key y - t" using F that by force
      then show ?thesis using B(2,3) False by linarith
    qed
    then show ?thesis using B by (auto simp: abs_if)
  next
    case f
    note F = asof_forward_Some [OF srt f(2)]
    note B = asof_backward_None [OF srt f(1)]
    have "\<bar>key x - t\<bar> \<le> \<bar>key y - t\<bar>" if "y \<in> set xs" for y
    proof (cases "key y \<le> t")
      case True
      then have "tol < t - key y" using B that by blast
      then show ?thesis using F(2,3) True by linarith
    next
      case False
      then have "key x \<le> key y" using F(4) that by force
      then show ?thesis using F(2) False by linarith
    qed
    then show ?thesis using F by (auto simp: abs_if)
  qed
  then show "x \<in> set xs" and "\<bar>key x - t\<bar> \<le> tol"
    and "\<forall>y\<in>set xs. \<bar>key x - t\<bar> \<le> \<bar>key y - t\<bar>" by blast+
qed


lemma truncate_extend:
  "veh_minute.truncate (veh_minute.extend (l :: veh_minute) ext) = l"
  by (cases l) (simp add: veh_minute.defs)

lemma truncate_merge_zone:
  "map veh_minute.truncate (merge_zone zone_of w z grp) = sort_key v_minute grp"
  by (simp add: merge_zone_def Let_def comp_def truncate_extend)

lemma filter_mset_all:
  "\<forall>x\<in>set v. P x \<Longrightarrow> filter_mset P (mset v) = mset v"
  by (induction v) auto

lemma mset_concat_groups:
  "distinct zs \<Longrightarrow>
     mset (concat (map (\<lambda>z. sort_key k (filter (\<lambda>l. f l = z) v)) zs))
       = filter_mset (\<lambda>l. f l \<in> set zs) (mset v)"
proof (induction zs)
  case Nil
  then show ?case by simp
next
  case (Cons z zs)
  have "filter_mset (\<lambda>l. f l = z) (mset v) + filter_mset (\<lambda>l. f l \<in> set zs) (mset v)
          = filter_mset (\<lambda>l. f l \<in> set (z # zs)) (mset v)"
    using Cons.prems by (auto simp: multiset_eq_iff)
  with Cons show ?case by simp
qed

lemma join_left_preserving:
  "mset (map veh_minute.truncate (join_minute_with_weather zone_of v w)) = mset v"
proof -
  have "map veh_minute.truncate (join_minute_with_weather zone_of v w)
          = concat (map (\<lambda>z. sort_key v_minute (filter (\<lambda>l. zone_of l = z) v))
                        (remdups (map zone_of v)))"
    by (simp add: join_minute_with_weather_def map_concat comp_def truncate_merge_zone)
  then show ?thesis
    by (simp add: mset_concat_groups filter_mset_all)
qed

lemma merge_zone_row:
  assumes "j \<in> set (merge_zone zone_of w z grp)" and "\<forall>l\<in>set grp. zone_of l = z"
  shows "zone j = zone_of (veh_minute.truncate j)"
    and "(\<forall>x\<in>set w. w_zone x = zone j \<longrightarrow> tolerance < \<bar>w_minute x - minute_of (timestamp j)\<bar>)
          \<longrightarrow> rain_mm j = None \<and> temp_c j = None"
    and "(\<exists>x\<in>set w. w_zone x = zone j \<and> \<bar>w_minute x - minute_of (timestamp j)\<bar> \<le> tolerance)
          \<longrightarrow> (\<exists>x\<in>set w. w_zone x = zone j
                  \<and> \<bar>w_minute x - minute_of (timestamp j)\<bar> \<le> tolerance
                  \<and> (\<forall>y\<in>set w. w_zone y = zone j \<longrightarrow>
                        \<bar>w_minute x - minute_of (timestamp j)\<bar> \<le> \<bar>w_minute y - minute_of (timestamp j)\<bar>)
                  \<and> rain_mm j = w_rain_mm x \<and> temp_c j = w_temp_c x)"
proof -
  define w_z where "w_z = sort_key w_minute (filter (\<lambda>x. w_zone x = z) w)"
  have srt: "sorted (map w_minute w_z)" by (simp add: w_z_def)
  have setw: "set w_z = {x \<in> set w. w_zone x = z}" by (auto simp: w_z_def)
  from assms(1) obtain l where l: "l \<in> set grp"
    and j: "j = veh_minute.extend l
                 (veh_minute_w.fields (zone_of l)
                    (case asof_nearest tolerance w_minute (v_minute l) w_z of
                       None \<Rightarrow> None | Some x \<Rightarrow> w_rain_mm x)
                    (case asof_nearest tolerance w_minute (v_minute l) w_z of
                       None \<Rightarrow> None | Some x \<Rightarrow> w_temp_c x))"
    by (auto simp: merge_zone_def Let_def w_z_def)
  have zo: "zone j = z" using l assms(2) by (simp add: j veh_minute.defs veh_minute_w.defs)
  have t: "minute_of (timestamp j) = v_minute l"
    by (simp add: j v_minute_def veh_minute.defs veh_minute_w.defs)
  show "zone j = zone_of (veh_minute.truncate j)"
    unfolding j truncate_extend by (simp add: veh_minute.defs veh_minute_w.defs)
  show "(\<forall>x\<in>set w. w_zone x = zone j \<longrightarrow> tolerance < \<bar>w_minute x - minute_of (timestamp j)\<bar>)
          \<longrightarrow> rain_mm j = None \<and> temp_c j = None"
  proof
    assume far: "\<forall>x\<in>set w. w_zone x = zone j \<longrightarrow> tolerance < \<bar>w_minute x - minute_of (timestamp j)\<bar>"
    have "asof_nearest tolerance w_minute (v_minute l) w_z = None"
    proof (rule ccontr)
      assume "asof_nearest tolerance w_minute (v_minute l) w_z \<noteq> None"
      then obtain x where x: "asof_nearest tolerance w_minute (v_minute l) w_z = Some x" by auto
      from asof_nearest_Some(1,2) [OF srt x] far show False
        unfolding setw zo t by force
    qed
    then show "rain_mm j = None \<and> temp_c j = None"
      by (simp add: j veh_minute.defs veh_minute_w.defs)
  qed
  show "(\<exists>x\<in>set w. w_zone x = zone j \<and> \<bar>w_minute x - minute_of (timestamp j)\<bar> \<le> tolerance)
          \<longrightarrow> (\<exists>x\<in>set w. w_zone x = zone j
                  \<and> \<bar>w_minute x - minute_of (timestamp j)\<bar> \<le> tolerance
                  \<and> (\<forall>y\<in>set w. w_zone y = zone j \<longrightarrow>
                        \<bar>w_minute x - minute_of (timestamp j)\<bar> \<le> \<bar>w_minute y - minute_of (timestamp j)\<bar>)
                  \<and> rain_mm j = w_rain_mm x \<and> temp_c j = w_temp_c x)"
  proof
    assume "\<exists>x\<in>set w. w_zone x = zone j \<and> \<bar>w_minute x - minute_of (timestamp j)\<bar> \<le> tolerance"
    then obtain y where y: "y \<in> set w_z" "\<bar>w_minute y - v_minute l\<bar> \<le> tolerance"
      unfolding setw zo t by blast
    have "asof_nearest tolerance w_minute (v_minute l) w_z \<noteq> None"
    proof
      assume "asof_nearest tolerance w_minute (v_minute l) w_z = None"
      from asof_nearest_None [OF srt this] y show False by force
    qed
    then obtain x where x: "asof_nearest tolerance w_minute (v_minute l) w_z = Some x" by auto
    note X = asof_nearest_Some [OF srt x]
    have "rain_mm j = w_rain_mm x \<and> temp_c j = w_temp_c x"
      by (simp add: j x veh_minute.defs veh_minute_w.defs)
    with X show "\<exists>x\<in>set w. w_zone x = zone j
                  \<and> \<bar>w_minute x - minute_of (timestamp j)\<bar> \<le> tolerance
                  \<and> (\<forall>y\<in>set w. w_zone y = zone j \<longrightarrow>
                        \<bar>w_minute x - minute_of (timestamp j)\<bar> \<le> \<bar>w_minute y - minute_of (timestamp j)\<bar>)
                  \<and> rain_mm j = w_rain_mm x \<and> temp_c j = w_temp_c x"
      unfolding setw zo t by (intro bexI [where x = x]) auto
  qed
qed

text \<open>
  C5.  The join is left-preserving: its output, with the weather columns removed, is a
  permutation of the input, so every vehicle-minute has exactly one output row.  Times
  are compared after both timestamps have been floored to the minute, as the script
  does.  In every output row the zone is the row's own zone; when every reading of that
  zone is more than 7 min 30 s away from the row's minute, the weather columns are null;
  when some reading of that zone is within 7 min 30 s, the weather columns are those of
  a reading of that zone, within the tolerance, that is at least as close as every other
  reading of the zone.  With weather readings that carry values, the weather columns are
  therefore null exactly when no reading of the zone is within the tolerance.
\<close>

theorem C5_temporal_join:
  "mset (map veh_minute.truncate (join_minute_with_weather zone_of v w)) = mset v
   \<and> length (join_minute_with_weather zone_of v w) = length v
   \<and> (\<forall>j\<in>set (join_minute_with_weather zone_of v w).
        zone j = zone_of (veh_minute.truncate j)
        \<and> ((\<forall>x\<in>set w. w_zone x = zone j \<longrightarrow> tolerance < \<bar>w_minute x - minute_of (timestamp j)\<bar>)
              \<longrightarrow> rain_mm j = None \<and> temp_c j = None)
        \<and> ((\<exists>x\<in>set w. w_zone x = zone j \<and> \<bar>w_minute x - minute_of (timestamp j)\<bar> \<le> tolerance)
              \<longrightarrow> (\<exists>x\<in>set w. w_zone x = zone j
                      \<and> \<bar>w_minute x - minute_of (timestamp j)\<bar> \<le> tolerance
                      \<and> (\<forall>y\<in>set w. w_zone y = zone j \<longrightarrow>
                            \<bar>w_minute x - minute_of (timestamp j)\<bar>
                              \<le> \<bar>w_minute y - minute_of (timestamp j)\<bar>)
                      \<and> rain_mm j = w_rain_mm x \<and> temp_c j = w_temp_c x))
        \<and> ((\<forall>x\<in>set w. w_rain_mm x \<noteq> None \<and> w_temp_c x \<noteq> None)
              \<longrightarrow> ((rain_mm j = None \<and> temp_c j = None)
                     \<longleftrightarrow> (\<forall>x\<in>set w. w_zone x = zone j \<longrightarrow>
                            tolerance < \<bar>w_minute x - minute_of (timestamp j)\<bar>))))"
proof (intro conjI ballI)
  show m: "mset (map veh_minute.truncate (join_minute_with_weather zone_of v w)) = mset v"
    by (rule join_left_preserving)
  show "length (join_minute_with_weather zone_of v w) = length v"
    using arg_cong [OF m, of size] by simp
next
  fix j assume "j \<in> set (join_minute_with_weather zone_of v w)"
  then obtain z where j: "j \<in> set (merge_zone zone_of w z (filter (\<lambda>l. zone_of l = z) v))"
    by (auto simp: join_minute_with_weather_def)
  have grp: "\<forall>l\<in>set (filter (\<lambda>l. zone_of l = z) v). zone_of l = z" by simp
  note R = merge_zone_row [OF j grp]
  show "zone j = zone_of (veh_minute.truncate j)" by (rule R(1))
  show "(\<forall>x\<in>set w. w_zone x = zone j \<longrightarrow> tolerance < \<bar>w_minute x - minute_of (timestamp j)\<bar>)
              \<longrightarrow> rain_mm j = None \<and> temp_c j = None" by (rule R(2))
  show "(\<exists>x\<in>set w. w_zone x = zone j \<and> \<bar>w_minute x - minute_of (timestamp j)\<bar> \<le> tolerance)
              \<longrightarrow> (\<exists>x\<in>set w. w_zone x = zone j
                      \<and> \<bar>w_minute x - minute_of (timestamp j)\<bar> \<le> tolerance
                      \<and> (\<forall>y\<in>set w. w_zone y = zone j \<longrightarrow>
                            \<bar>w_minute x - minute_of (timestamp j)\<bar>
                              \<le> \<bar>w_minute y - minute_of (timestamp j)\<bar>)
                      \<and> rain_mm j = w_rain_mm x \<and> temp_c j = w_temp_c x)" by (rule R(3))
  show "(\<forall>x\<in>set w. w_rain_mm x \<noteq> None \<and> w_temp_c x \<noteq> None)
              \<longrightarrow> ((rain_mm j = None \<and> temp_c j = None)
                     \<longleftrightarrow> (\<forall>x\<in>set w. w_zone x = zone j \<longrightarrow>
                            tolerance < \<bar>w_minute x - minute_of (timestamp j)\<bar>))"
  proof (intro impI iffI)
    assume full: "\<forall>x\<in>set w. w_rain_mm x \<noteq> None \<and> w_temp_c x \<noteq> None"
      and null: "rain_mm j = None \<and> temp_c j = None"
    show "\<forall>x\<in>set w. w_zone x = zone j \<longrightarrow> tolerance < \<bar>w_minute x - minute_of (timestamp j)\<bar>"
    proof (rule ccontr)
      assume "\<not> ?thesis"
      then have "\<exists>x\<in>set w. w_zone x = zone j \<and> \<bar>w_minute x - minute_of (timestamp j)\<bar> \<le> tolerance"
        by (auto simp: not_less)
      with R(3) obtain x where "x \<in> set w" "rain_mm j = w_rain_mm x" by blast
      with full null show False by auto
    qed
  next
    assume "\<forall>x\<in>set w. w_zone x = zone j \<longrightarrow> tolerance < \<bar>w_minute x - minute_of (timestamp j)\<bar>"
    with R(2) show "rain_mm j = None \<and> temp_c j = None" by blast
  qed
qed


theorem C5_temporal_join_witness:
  "map (\<lambda>j. (vehicle_id j, rain_mm j, temp_c j))
     (join_minute_with_weather (\<lambda>l. if nan_ge (lat l) 53.36 then north else centre)
        [\<lparr>vehicle_id = ''a'', trip_id = ''t1'', route_id = ''46A'', direction_id = 0,
          timestamp = 1751364030, lat = Some 53.34, lon = Some (-6.26), speed_kph = Some 20,
          delay_sec = Some 60\<rparr>,
         \<lparr>vehicle_id = ''b'', trip_id = ''t2'', route_id = ''7'', direction_id = 1,
          timestamp = 1751367600, lat = Some 53.39, lon = Some (-6.26), speed_kph = None,
          delay_sec = None\<rparr>]
        [\<lparr>w_zone = centre, w_timestamp = 1751364000, w_rain_mm = Some 1.2, w_temp_c = Some 15\<rparr>,
         \<lparr>w_zone = north, w_timestamp = 1751364000, w_rain_mm = Some 0, w_temp_c = Some 14\<rparr>,
         \<lparr>w_zone = centre, w_timestamp = 1751367600, w_rain_mm = Some 3, w_temp_c = Some 16\<rparr>])
   = [(''a'', Some 1.2, Some 15), (''b'', None, None)]"
  (is "map _ (join_minute_with_weather ?zone_of ?v ?w) = _")
proof -
  define a where "a = \<lparr>vehicle_id = ''a'', trip_id = ''t1'', route_id = ''46A'', direction_id = 0,
          timestamp = 1751364030, lat = Some 53.34, lon = Some (-6.26), speed_kph = Some 20,
          delay_sec = Some 60, zone = centre, rain_mm = Some 1.2, temp_c = Some 15\<rparr>"
  define b where "b = \<lparr>vehicle_id = ''b'', trip_id = ''t2'', route_id = ''7'', direction_id = 1,
          timestamp = 1751367600, lat = Some 53.39, lon = Some (-6.26), speed_kph = None,
          delay_sec = None, zone = north,
          rain_mm = rain_mm (join_minute_with_weather ?zone_of ?v ?w ! 1),
          temp_c = temp_c (join_minute_with_weather ?zone_of ?v ?w ! 1)\<rparr>"
  have J: "join_minute_with_weather ?zone_of ?v ?w = [a, b]"
    by (simp add: a_def b_def join_minute_with_weather_def merge_zone_def asof_nearest_def
        asof_backward_def asof_forward_def tolerance_def v_minute_def w_minute_def minute_of_def
        nan_ge_def veh_minute.defs veh_minute_w.defs Let_def)
  have far: "\<forall>x\<in>set ?w. w_zone x = zone b \<longrightarrow> tolerance < \<bar>w_minute x - minute_of (timestamp b)\<bar>"
    by (simp add: b_def tolerance_def w_minute_def minute_of_def)
  have "b \<in> set (join_minute_with_weather ?zone_of ?v ?w)"
    unfolding J by simp
  with C5_temporal_join [of ?zone_of ?v ?w] far
  have "rain_mm b = None \<and> temp_c b = None" by blast
  then have "b = \<lparr>vehicle_id = ''b'', trip_id = ''t2'', route_id = ''7'', direction_id = 1,
          timestamp = 1751367600, lat = Some 53.39, lon = Some (-6.26), speed_kph = None,
          delay_sec = None, zone = north, rain_mm = None, temp_c = None\<rparr>"
    by (simp add: b_def)
  then show ?thesis
    unfolding J by (simp add: a_def)
qed

section \<open>Properties of the polygon aggregation\<close>

lemma group_rows_empty:
  assumes "\<forall>p\<in>set pts. \<forall>x y. lon p = Some x \<longrightarrow> lat p = Some y \<longrightarrow>
             (\<forall>e\<in>set eds. ed_id e = k \<longrightarrow> \<not> pt_within (x, y) (geometry e))"
  shows "group_rows k (sjoin_within pt_within pts eds) = []"
  using assms
  by (induction pts)
     (auto simp: group_rows_def sjoin_within_def Let_def filter_empty_conv split: option.splits)

lemma ed_stress_agg_empty_polygon:
  assumes "i < length eds"
    and "\<forall>p\<in>set days. \<forall>x y. lon p = Some x \<longrightarrow> lat p = Some y \<longrightarrow>
           (\<forall>e\<in>set eds. ed_id e = ed_id (eds ! i) \<longrightarrow> \<not> pt_within (x, y) (geometry e))"
    and "ed_stress_agg pt_within (Some eds) days metric thr = Inr res"
  shows "\<exists>out. res = Some out
           \<and> length out = length eds \<and> ed.truncate (out ! i) = eds ! i
           \<and> agg_n (out ! i) = 0 \<and> agg_count_hi (out ! i) = 0
           \<and> agg_share_hi (out ! i) = 0 \<and> agg_value (out ! i) = 0"
proof -
  define df where "df = filter (\<lambda>r. lat r \<noteq> None \<and> lon r \<noteq> None) days"
  have "\<forall>p\<in>set df. \<forall>x y. lon p = Some x \<longrightarrow> lat p = Some y \<longrightarrow>
           (\<forall>e\<in>set eds. ed_id e = ed_id (eds ! i) \<longrightarrow> \<not> pt_within (x, y) (geometry e))"
    using assms(2) by (auto simp: df_def)
  then have g: "group_rows (ed_id (eds ! i)) (sjoin_within pt_within df eds) = []"
    by (rule group_rows_empty)
  show ?thesis
    using assms(3) unfolding ed_stress_agg_def df_def [symmetric] Let_def
    using assms(1) g
    by (auto simp: ed.defs ed_agg.defs fillna_def split: if_splits)
qed

lemma ed_stress_agg_raises_iff:
  "ed_stress_agg pt_within (Some eds) days metric thr = Inl err
     \<longleftrightarrow> metric \<noteq> ''Avg'' \<and> metric \<noteq> ''Max''
         \<and> filter (\<lambda>r. lat r \<noteq> None \<and> lon r \<noteq> None) days \<noteq> []
         \<and> (\<forall>r\<in>set (sjoin_within pt_within
                         (filter (\<lambda>r. lat r \<noteq> None \<and> lon r \<noteq> None) days) eds). snd r = None)"
  by (cases err) (auto simp: ed_stress_agg_def Let_def filter_empty_conv)

text \<open>
  C9.  The specification gives every polygon without a scored point \<open>n = 0\<close>,
  \<open>count_hi = 0\<close>, \<open>share_hi = 0.0\<close> and \<open>value = 0.0\<close> under every metric.  With one
  scored point that lies in no polygon, the \<open>%>threshold\<close> metric (no threshold supplied)
  raises instead of returning a table, although the only polygon has no point; \<open>Avg\<close>
  on the same input returns the zero row.
\<close>

theorem C9_threshold_without_any_match_raises:
  "ed_stress_agg (\<lambda>(x, y) (x0, y0, x1, y1). x0 < x \<and> x < x1 \<and> y0 < y \<and> y < y1)
        (Some [\<lparr>ed_id = ''268002'', ed_name = ''Arran Quay B'',
                 geometry = (- 6.40, 53.30, - 6.30, 53.40 :: real)\<rparr>])
        [\<lparr>vehicle_id = ''v1'', trip_id = ''t1'', route_id = ''46A'', direction_id = 0,
          timestamp = 1751364000, lat = Some 53.34, lon = Some (-6.26), speed_kph = Some 20,
          delay_sec = Some 900, zone = centre, rain_mm = Some 0, temp_c = Some 18,
          vanish_anchor = True, delay_norm = 0.70, free_kph = Some 40, speed_norm = Some 0.50,
          rain_norm = 0, heat_norm = 0, cold_norm = 0, row_stress = Some 0.61\<rparr>]
        ''%>threshold'' None
     = Inl Empty_groupby_apply
   \<and> ed_stress_agg (\<lambda>(x, y) (x0, y0, x1, y1). x0 < x \<and> x < x1 \<and> y0 < y \<and> y < y1)
        (Some [\<lparr>ed_id = ''268002'', ed_name = ''Arran Quay B'',
                 geometry = (- 6.40, 53.30, - 6.30, 53.40 :: real)\<rparr>])
        [\<lparr>vehicle_id = ''v1'', trip_id = ''t1'', route_id = ''46A'', direction_id = 0,
          timestamp = 1751364000, lat = Some 53.34, lon = Some (-6.26), speed_kph = Some 20,
          delay_sec = Some 900, zone = centre, rain_mm = Some 0, temp_c = Some 18,
          vanish_anchor = True, delay_norm = 0.70, free_kph = Some 40, speed_norm = Some 0.50,
          rain_norm = 0, heat_norm = 0, cold_norm = 0, row_stress = Some 0.61\<rparr>]
        ''Avg'' None
     = Inr (Some [\<lparr>ed_id = ''268002'', ed_name = ''Arran Quay B'',
                   geometry = (- 6.40, 53.30, - 6.30, 53.40), agg_value = 0, agg_n = 0,
                   agg_count_hi = 0, agg_share_hi = 0\<rparr>])"
  by (simp add: ed_stress_agg_def sjoin_within_def group_rows_def fillna_def
      ed.defs ed_agg.defs Let_def del: not_None_eq)

section \<open>Behaviour of the segment snapping\<close>

lemma hav_km_meridian:
  assumes "\<bar>radians lat2 - radians lat1\<bar> < pi"
  shows "hav_km lat1 lon1 lat2 lon1 = 6371 * \<bar>radians lat2 - radians lat1\<bar>"
proof -
  define h where "h = \<bar>radians lat2 - radians lat1\<bar> / 2"
  have h: "0 \<le> h" "h < pi / 2" using assms by (simp_all add: h_def)
  have c: "0 < cos h" using h by (intro cos_gt_zero_pi) linarith+
  have s: "0 \<le> sin h" using h by (intro sin_ge_zero) linarith+
  have sq: "(sin ((radians lat2 - radians lat1) / 2))\<^sup>2 = (sin h)\<^sup>2"
  proof (cases "0 \<le> radians lat2 - radians lat1")
    case True
    then show ?thesis by (simp add: h_def)
  next
    case False
    then have "(radians lat2 - radians lat1) / 2 = - h" unfolding h_def by linarith
    then show ?thesis by simp
  qed
  have a1: "sqrt ((sin h)\<^sup>2) = sin h" using s by simp
  have "1 - (sin h)\<^sup>2 = (cos h)\<^sup>2"
    using sin_cos_squared_add [of h] by linarith
  then have a2: "sqrt (1 - (sin h)\<^sup>2) = cos h" using c by simp
  have "arctan (sin h / cos h) = h"
    using h arctan_tan [of h] by (simp add: tan_def)
  then have at: "arctan2 (sin h) (cos h) = h" using c by (simp add: arctan2_def)
  have "hav_km lat1 lon1 lat2 lon1
          = 2 * 6371 * arctan2 (sqrt ((sin ((radians lat2 - radians lat1) / 2))\<^sup>2))
                          (sqrt (1 - (sin ((radians lat2 - radians lat1) / 2))\<^sup>2))"
    by (simp add: hav_km_def Let_def)
  also have "\<dots> = 2 * 6371 * h"
    by (simp only: sq a1 a2 at)
  finally show ?thesis by (simp add: h_def)
qed

lemma hav_km_example: "50 / 1000 < hav_km 53.35 (- 6.26) 53.34 (- 6.26)"
proof -
  have d: "\<bar>radians 53.34 - radians 53.35\<bar> = pi / 18000"
    by (simp add: radians_def field_simps)
  have "\<bar>radians 53.34 - radians 53.35\<bar> < pi"
    unfolding d using pi_gt_zero by linarith
  then have "hav_km 53.35 (- 6.26) 53.34 (- 6.26) = 6371 * \<bar>radians 53.34 - radians 53.35\<bar>"
    by (rule hav_km_meridian)
  then have "hav_km 53.35 (- 6.26) 53.34 (- 6.26) = 6371 * (pi / 18000)"
    by (simp only: d)
  then show ?thesis using pi_ge_two by linarith
qed

lemma sqrt_one_hundredth_squared: "sqrt (1 / 10000) = 1 / 100"
  by (rule real_sqrt_unique) (simp_all add: power2_eq_square)

text \<open>
  C6.  The specification keeps a point if and only if it is at most 50 metres from its
  nearest segment.  The code compares a distance in degrees with 50: the point below is
  0.01 degree of latitude north of the only segment, more than 50 m by \<open>hav_km\<close> (about
  1.1 km), and \<open>snap_minutes\<close> with the default bound keeps it, with \<open>dist_m = 0.01\<close>.
\<close>

theorem C6_snap_keeps_point_a_kilometre_away:
  "snap_minutes
     [\<lparr>vehicle_id = ''v1'', trip_id = ''t1'', route_id = ''46A'', direction_id = 0,
       timestamp = 1751364000, lat = Some 53.35, lon = Some (-6.26), speed_kph = Some 20,
       delay_sec = Some 900, zone = centre, rain_mm = Some 0, temp_c = Some 18,
       vanish_anchor = False, delay_norm = 0.70, free_kph = Some 40, speed_norm = Some 0.50,
       rain_norm = 0, heat_norm = 0, cold_norm = 0, row_stress = Some 0.36\<rparr>]
     [\<lparr>segment_id = ''S1_0'', shape_id = ''S1'', seq = 0,
       seg_geometry = ((- 6.26, 53.34), (- 6.25, 53.34))\<rparr>]
     50
   = [\<lparr>vehicle_id = ''v1'', trip_id = ''t1'', route_id = ''46A'', direction_id = 0,
       timestamp = 1751364000, lat = Some 53.35, lon = Some (-6.26), speed_kph = Some 20,
       delay_sec = Some 900, zone = centre, rain_mm = Some 0, temp_c = Some 18,
       vanish_anchor = False, delay_norm = 0.70, free_kph = Some 40, speed_norm = Some 0.50,
       rain_norm = 0, heat_norm = 0, cold_norm = 0, row_stress = Some 0.36,
       snap_segment_id = Some ''S1_0'', dist_m = Some (1 / 100)\<rparr>]
   \<and> 50 / 1000 < hav_km 53.35 (- 6.26) 53.34 (- 6.26)"
  using hav_km_example
  by (simp add: snap_minutes_def sjoin_nearest_def segment_distance_def point_distance_def
      nan_le_def veh_minute_scored.defs snapped.defs Let_def power2_eq_square
      sqrt_one_hundredth_squared)

end
